theory Spec2Isabelle
  imports Complex_Main "HOL-Library.AList" "HOL-Library.Option_ord" "HOL-Library.Product_Lexorder"
begin

section \<open>Strings as the CLI uses them\<close>

text \<open>
  A JavaScript string is modelled as a \<open>string\<close>. The only character the CLI searches
  for is \<open>@\<close>, which is a single unit in every encoding, so positions and slices agree
  with the source. \<open>indexOf\<close> and \<open>lastIndexOf\<close> return \<open>-1\<close> when nothing is found,
  as in the source.
\<close>

fun index_from :: "char \<Rightarrow> string \<Rightarrow> int \<Rightarrow> int" where
  "index_from c [] i = - 1"
| "index_from c (x # xs) i = (if x = c then i else index_from c xs (i + 1))"

definition indexOf :: "string \<Rightarrow> char \<Rightarrow> nat \<Rightarrow> int" where
  "indexOf s c start = index_from c (drop start s) (int start)"

fun last_index_from :: "char \<Rightarrow> string \<Rightarrow> int \<Rightarrow> int \<Rightarrow> int" where
  "last_index_from c [] i found = found"
| "last_index_from c (x # xs) i found =
     last_index_from c xs (i + 1) (if x = c then i else found)"

definition lastIndexOf :: "string \<Rightarrow> char \<Rightarrow> int" where
  "lastIndexOf s c = last_index_from c s 0 (- 1)"

definition startsWith :: "string \<Rightarrow> string \<Rightarrow> bool" where
  "startsWith s p = (take (length p) s = p)"

definition slice :: "string \<Rightarrow> int \<Rightarrow> int \<Rightarrow> string" where
  \<comment> \<open>\<open>s.slice(a, b)\<close> for \<open>0 \<le> a\<close>, \<open>0 \<le> b\<close>, the only way the CLI calls it\<close>
  "slice s a b = drop (nat a) (take (nat b) s)"

definition slice_from :: "string \<Rightarrow> int \<Rightarrow> string" where
  \<comment> \<open>\<open>s.slice(a)\<close> for \<open>0 \<le> a\<close>\<close>
  "slice_from s a = drop (nat a) s"

definition or_else :: "string \<Rightarrow> string \<Rightarrow> string" where
  \<comment> \<open>\<open>a || b\<close> on strings: the empty string is falsy\<close>
  "or_else a b = (if a = [] then b else a)"

section \<open>Package specs\<close>

datatype thrown = Error string | NonError

record package_spec =
  spec_name :: string
  spec_range :: string

definition parsePackageSpec :: "string \<Rightarrow> thrown + package_spec" where
  "parsePackageSpec spec =
     (if spec = [] then Inl (Error ''Empty package spec provided'')
      else if startsWith spec ''@'' then
        (let atIndex = indexOf spec CHR ''@'' 1 in
         if atIndex = - 1 then Inr \<lparr>spec_name = spec, spec_range = ''latest''\<rparr>
         else Inr \<lparr>spec_name = slice spec 0 atIndex,
                   spec_range = or_else (slice_from spec (atIndex + 1)) ''latest''\<rparr>)
      else
        (let lastAt = lastIndexOf spec CHR ''@'' in
         if lastAt > 0 then
           Inr \<lparr>spec_name = slice spec 0 lastAt,
                spec_range = or_else (slice_from spec (lastAt + 1)) ''latest''\<rparr>
         else Inr \<lparr>spec_name = spec, spec_range = ''latest''\<rparr>))"

text \<open>
  \<open>collectFromArgs\<close> fills a \<open>Map\<close>. A JavaScript \<open>Map\<close> keeps its keys in the order of
  their first insertion, and \<open>set\<close> on a key that is present replaces the value where it
  stands: on an association list this is \<open>AList.update\<close>. The first empty spec makes
  \<open>parsePackageSpec\<close> throw, and the exception leaves the function.
\<close>

fun collectFromArgs_loop ::
  "string list \<Rightarrow> (string \<times> string) list \<Rightarrow> thrown + (string \<times> string) list" where
  "collectFromArgs_loop [] m = Inr m"
| "collectFromArgs_loop (spec # specs) m =
     (case parsePackageSpec spec of
        Inl e \<Rightarrow> Inl e
      | Inr p \<Rightarrow> collectFromArgs_loop specs (AList.update (spec_name p) (spec_range p) m))"

definition collectFromArgs :: "string list \<Rightarrow> thrown + (string \<times> string) list" where
  "collectFromArgs specs = collectFromArgs_loop specs []"

section \<open>package.json\<close>

text \<open>
  \<open>package.json\<close> is modelled at its declared type, the interface \<open>PackageJson\<close>: an
  optional field is an \<open>option\<close>, a \<open>Record<string, string>\<close> is the list of its entries
  in enumeration order. The fields the interface does not name (\<open>name\<close>, \<open>version\<close>,
  other \<open>pnpm\<close> settings) are carried along as JSON values, since the file is rewritten
  from the parsed object. Where two tables are merged, an entry that is updated keeps
  its place and a new entry goes to the end; that JavaScript lists keys that are array
  indices before the others is not modelled, and nothing below depends on the place of
  an entry in a merged table.
\<close>

datatype json = JNull | JBool bool | JNum int | JStr string
  | JArr "json list" | JObj "(string \<times> json) list"

record pnpm_config =
  pnpm_overrides :: "(string \<times> string) list option"
  pnpm_rest :: "(string \<times> json) list"

record PackageJson =
  dependencies :: "(string \<times> string) list option"
  devDependencies :: "(string \<times> string) list option"
  overrides :: "(string \<times> string) list option"
  pnpm :: "pnpm_config option"
  rest :: "(string \<times> json) list"

datatype package_file = Missing | Malformed | Parsed PackageJson

definition or_empty :: "(string \<times> string) list option \<Rightarrow> (string \<times> string) list" where
  \<comment> \<open>\<open>x ?? {}\<close>\<close>
  "or_empty x = (case x of None \<Rightarrow> [] | Some es \<Rightarrow> es)"

definition set_all ::
  "(string \<times> string) list \<Rightarrow> (string \<times> string) list \<Rightarrow> (string \<times> string) list" where
  \<comment> \<open>\<open>entries.forEach(([k, v]) => map.set(k, v))\<close>, and the object spread \<open>{...m, ...entries}\<close>\<close>
  "set_all m es = foldl (\<lambda>acc (k, v). AList.update k v acc) m es"

definition collectFromPackageJson ::
  "package_file \<Rightarrow> bool \<Rightarrow> bool \<Rightarrow> thrown + (string \<times> string) list" where
  \<comment> \<open>\<open>Inl\<close>: the process exits with status 1 (no file), or \<open>JSON.parse\<close> throws\<close>
  "collectFromPackageJson file devOnly prodOnly =
     (case file of
        Missing \<Rightarrow> Inl (Error ''No package.json found in the current directory.'')
      | Malformed \<Rightarrow> Inl (Error ''SyntaxError'')
      | Parsed pkg \<Rightarrow>
          (let m0 = [];
               m1 = (if \<not> prodOnly then set_all m0 (or_empty (devDependencies pkg)) else m0);
               m2 = (if \<not> devOnly then set_all m1 (or_empty (dependencies pkg)) else m1)
           in Inr m2))"

section \<open>Requests, failures and the resolution loop\<close>

text \<open>
  A JavaScript number is a double: not a number, an infinity, or a finite value, kept as
  the rational it denotes. The result of an operation on finite values is the exact
  result rounded to the nearest double, ties to even: 53 significant bits, the spacing
  of the subnormal range below \<open>2 ^ -1022\<close>, an infinity from \<open>2 ^ 1024\<close> on. The sign of
  zero is not kept; nothing here distinguishes the two zeros.
\<close>

datatype js_number = NaN | PosInf | NegInf | Finite rat

function bits :: "int \<Rightarrow> int" where
  \<comment> \<open>the number of binary digits\<close>
  "bits n = (if n \<le> 0 then 0 else 1 + bits (n div 2))"
  by pat_completeness auto
termination
  by (relation "measure nat") auto

declare bits.simps [simp del]

definition pow2 :: "int \<Rightarrow> rat" where
  "pow2 e = (if 0 \<le> e then 2 ^ nat e else 1 / 2 ^ nat (- e))"

definition exponent :: "rat \<Rightarrow> int" where
  \<comment> \<open>for \<open>0 < x\<close>, the \<open>e\<close> with \<open>2 ^ e \<le> x < 2 ^ (e + 1)\<close>\<close>
  "exponent x =
     (case quotient_of x of (p, q) \<Rightarrow>
        (let d = bits p - bits q
         in if pow2 d \<le> x then d else d - 1))"

definition roundTiesToEven :: "rat \<Rightarrow> int" where
  "roundTiesToEven m =
     (let f = \<lfloor>m\<rfloor>; r = m - of_int f
      in if r < 1 / 2 then f else if 1 / 2 < r then f + 1
         else if even f then f else f + 1)"

definition round_double :: "rat \<Rightarrow> js_number" where
  "round_double x =
     (if x = 0 then Finite 0
      else
        (let a = \<bar>x\<bar>;
             e = exponent a
         in if 1023 < e then (if 0 < x then PosInf else NegInf)
            else
              (let ulp = pow2 (max e (- 1022) - 52);
                   n = roundTiesToEven (a / ulp)
               in if e = 1023 \<and> n = 9007199254740992
                  then (if 0 < x then PosInf else NegInf)
                  else Finite (sgn x * of_int n * ulp))))"

definition js_times :: "js_number \<Rightarrow> rat \<Rightarrow> js_number" where
  \<comment> \<open>\<open>a * c\<close> for a finite \<open>c\<close> above zero\<close>
  "js_times a c =
     (case a of NaN \<Rightarrow> NaN | PosInf \<Rightarrow> PosInf | NegInf \<Rightarrow> NegInf
      | Finite x \<Rightarrow> round_double (x * c))"

definition js_minus :: "rat \<Rightarrow> js_number \<Rightarrow> js_number" where
  \<comment> \<open>\<open>t - a\<close> for a finite \<open>t\<close>\<close>
  "js_minus t a =
     (case a of NaN \<Rightarrow> NaN | PosInf \<Rightarrow> NegInf | NegInf \<Rightarrow> PosInf
      | Finite x \<Rightarrow> round_double (t - x))"

definition js_negative :: "js_number \<Rightarrow> bool" where
  \<comment> \<open>\<open>a < 0\<close>\<close>
  "js_negative a =
     (case a of NaN \<Rightarrow> False | PosInf \<Rightarrow> False | NegInf \<Rightarrow> True | Finite x \<Rightarrow> x < 0)"

datatype PackageManager = Npm | Pnpm

record request =
  req_name :: string
  req_range :: string
  req_registry :: string
  req_cutoffDate :: int
  req_ignoreAge :: bool

record failure =
  failure_name :: string
  failure_range :: string
  failure_reason :: string

text \<open>
  \<open>resolveSafeVersion\<close> is asynchronous and talks to a registry: it is a function of the
  request and of the state of the world \<open>'w\<close>, and returns the new world with either the
  value thrown (\<open>Inl\<close>) or the value returned (\<open>Inr\<close>, \<open>None\<close> for \<open>null\<close>). A call
  that never settles is not modelled: the resolver answers every request.
\<close>

type_synonym 'w resolver = "request \<Rightarrow> 'w \<Rightarrow> (thrown + string option) \<times> 'w"

definition DEFAULT_REGISTRY :: string where
  "DEFAULT_REGISTRY = ''https://registry.npmjs.org''"

definition newDate :: "js_number \<Rightarrow> int option" where
  \<comment> \<open>\<open>new Date(value)\<close>: the time value, which is \<open>value\<close> cut to a whole number of
      milliseconds, or \<open>None\<close> for an invalid date (not finite, or beyond 8.64e15 ms)\<close>
  "newDate v =
     (case v of
        Finite t \<Rightarrow>
          if \<bar>t\<bar> > 8640000000000000 then None
          else Some (if 0 \<le> t then \<lfloor>t\<rfloor> else \<lceil>t\<rceil>)
      | _ \<Rightarrow> None)"

definition cutOffMs :: "js_number \<Rightarrow> js_number" where
  \<comment> \<open>\<open>minAgeDays * 24 * 60 * 60 * 1000\<close>, multiplied from the left\<close>
  "cutOffMs minAgeDays = js_times (js_times (js_times (js_times minAgeDays 24) 60) 60) 1000"

definition cutoffDate_of :: "int \<Rightarrow> js_number \<Rightarrow> int option" where
  \<comment> \<open>\<open>new Date(Date.now() - cutOffMs)\<close>\<close>
  "cutoffDate_of now minAgeDays = newDate (js_minus (of_int now) (cutOffMs minAgeDays))"

definition error_reason :: "thrown \<Rightarrow> string" where
  \<comment> \<open>\<open>error instanceof Error ? error.message : "Unknown error"\<close>\<close>
  "error_reason e = (case e of Error message \<Rightarrow> message | NonError \<Rightarrow> ''Unknown error'')"

definition NO_VERSION :: string where
  "NO_VERSION = ''No version satisfies the range and age requirement''"

definition mkRequest :: "string \<Rightarrow> int \<Rightarrow> string set \<Rightarrow> string \<times> string \<Rightarrow> request" where
  \<comment> \<open>the argument object of the call at lines 78-84\<close>
  "mkRequest registry cutoffDate ignoreSet e =
     (case e of (name, range') \<Rightarrow>
        \<lparr>req_name = name, req_range = range', req_registry = registry,
         req_cutoffDate = cutoffDate, req_ignoreAge = (name \<in> ignoreSet)\<rparr>)"

fun resolveAll ::
  "'w resolver \<Rightarrow> string \<Rightarrow> int \<Rightarrow> string set \<Rightarrow> (string \<times> string) list \<Rightarrow>
   (string \<times> string) list \<Rightarrow> failure list \<Rightarrow> 'w \<Rightarrow>
   (string \<times> string) list \<times> failure list \<times> 'w" where
  "resolveAll resolver registry cutoffDate ignoreSet [] resolved failures w =
     (resolved, failures, w)"
| "resolveAll resolver registry cutoffDate ignoreSet ((name, range') # entries) resolved failures w =
     (case resolver (mkRequest registry cutoffDate ignoreSet (name, range')) w of
        (Inr None, w') \<Rightarrow>
          resolveAll resolver registry cutoffDate ignoreSet entries resolved
            (failures @ [\<lparr>failure_name = name, failure_range = range',
                          failure_reason = NO_VERSION\<rparr>]) w'
      | (Inr (Some version), w') \<Rightarrow>
          (if version = [] then
             resolveAll resolver registry cutoffDate ignoreSet entries resolved
               (failures @ [\<lparr>failure_name = name, failure_range = range',
                             failure_reason = NO_VERSION\<rparr>]) w'
           else
             resolveAll resolver registry cutoffDate ignoreSet entries
               (AList.update name version resolved) failures w')
      | (Inl error, w') \<Rightarrow>
          resolveAll resolver registry cutoffDate ignoreSet entries resolved
            (failures @ [\<lparr>failure_name = name, failure_range = range',
                          failure_reason = error_reason error\<rparr>]) w')"

definition failure_line :: "failure \<Rightarrow> string" where
  "failure_line f =
     ''  - '' @ failure_name f @ ''@'' @ failure_range f @ '': '' @ failure_reason f"

definition resolved_line :: "string set \<Rightarrow> string \<times> string \<Rightarrow> string" where
  "resolved_line ignoreSet e =
     (case e of (name, version) \<Rightarrow>
        ''  '' @ name @ ''@'' @ version @ (if name \<in> ignoreSet then '' (ignored)'' else []))"

definition nl :: "string \<Rightarrow> string" where
  \<comment> \<open>a message that starts with a line feed\<close>
  "nl s = CHR 0x0A # s"

section \<open>Installation strategies\<close>

record strategy_result =
  sr_written :: "PackageJson option"
  sr_command :: "(string \<times> string list) option"
  sr_exit :: int

definition exit_status :: "int option \<Rightarrow> int" where
  \<comment> \<open>\<open>result.status ?? 1\<close>\<close>
  "exit_status st = (case st of None \<Rightarrow> 1 | Some c \<Rightarrow> c)"

definition runStrategy ::
  "(string \<Rightarrow> string list \<Rightarrow> int option) \<Rightarrow> package_file \<Rightarrow> string \<Rightarrow>
   (string \<times> string) list \<Rightarrow> string \<Rightarrow> PackageManager \<Rightarrow> strategy_result" where
  "runStrategy spawnSync file strategy resolved registry packageManager =
     (if strategy = ''direct'' then
        (let packages = map (\<lambda>(name, version). name @ ''@'' @ version) resolved in
         if packageManager = Npm then
           (let npmArgs = [''install''] @ packages @ [''--registry'', registry] in
            \<lparr>sr_written = None, sr_command = Some (''npm'', npmArgs),
             sr_exit = exit_status (spawnSync ''npm'' npmArgs)\<rparr>)
         else
           (let pnpmArgs = [''add''] @ packages @ [''--registry'', registry] in
            \<lparr>sr_written = None, sr_command = Some (''pnpm'', pnpmArgs),
             sr_exit = exit_status (spawnSync ''pnpm'' pnpmArgs)\<rparr>))
      else if strategy = ''overrides'' then
        (case file of
           Missing \<Rightarrow> \<lparr>sr_written = None, sr_command = None, sr_exit = 1\<rparr>
         | Malformed \<Rightarrow> \<lparr>sr_written = None, sr_command = None, sr_exit = 1\<rparr>
         | Parsed pkg \<Rightarrow>
             (let overrides' = set_all [] resolved in
              if packageManager = Npm then
                (let pkg' = pkg\<lparr>overrides := Some (set_all (or_empty (overrides pkg)) overrides')\<rparr>;
                     npmArgs = [''install'', ''--registry'', registry]
                 in \<lparr>sr_written = Some pkg', sr_command = Some (''npm'', npmArgs),
                     sr_exit = exit_status (spawnSync ''npm'' npmArgs)\<rparr>)
              else
                (let pnpmConfig =
                       (case pnpm pkg of Some c \<Rightarrow> c
                        | None \<Rightarrow> \<lparr>pnpm_overrides = None, pnpm_rest = []\<rparr>);
                     pnpmOverrides = or_empty (pnpm_overrides pnpmConfig);
                     pkg' = pkg\<lparr>pnpm := Some (pnpmConfig\<lparr>pnpm_overrides :=
                                       Some (set_all pnpmOverrides overrides')\<rparr>)\<rparr>;
                     pnpmArgs = [''install'', ''--registry'', registry]
                 in \<lparr>sr_written = Some pkg', sr_command = Some (''pnpm'', pnpmArgs),
                     sr_exit = exit_status (spawnSync ''pnpm'' pnpmArgs)\<rparr>)))
      else \<lparr>sr_written = None, sr_command = None, sr_exit = 1\<rparr>)"

section \<open>The action of the \<open>install\<close> command\<close>

text \<open>
  The options arrive parsed: \<open>opt_minAgeDays\<close> is the double \<open>Number(options.minAgeDays)\<close>
  (\<open>NaN\<close> when the text is not a number), \<open>opt_packageManager\<close> is what
  \<open>normalizePackageManager\<close> accepts (\<open>None\<close>: it exits with status 1), \<open>opt_ignoreSet\<close> is
  the set \<open>buildIgnoreSet\<close> returns and \<open>opt_strategy\<close> the strategy in lower case.
  \<open>now\<close> is \<open>Date.now()\<close> in milliseconds. An invalid cutoff date makes \<open>toISOString\<close>
  throw, in the message that announces the cutoff. Every \<open>process.exit\<close>, and every exception that
  reaches the handler of \<open>parseAsync\<close> (which exits with status 1), ends the run with an
  \<open>outcome\<close>; \<open>out_report\<close> holds the messages printed from the failure list on.
\<close>

record cli_options =
  opt_minAgeDays :: js_number
  opt_registry :: string
  opt_packageManager :: "PackageManager option"
  opt_dryRun :: bool
  opt_strict :: bool
  opt_dev :: bool
  opt_prodOnly :: bool
  opt_ignoreSet :: "string set"
  opt_strategy :: string

record 'w outcome =
  out_exit :: int
  out_resolved :: "(string \<times> string) list"
  out_failures :: "failure list"
  out_report :: "string list"
  out_written :: "PackageJson option"
  out_command :: "(string \<times> string list) option"
  out_world :: 'w

definition exit_with :: "int \<Rightarrow> 'w \<Rightarrow> 'w outcome" where
  "exit_with code w =
     \<lparr>out_exit = code, out_resolved = [], out_failures = [], out_report = [],
      out_written = None, out_command = None, out_world = w\<rparr>"

definition finishInstall ::
  "(string \<Rightarrow> string list \<Rightarrow> int option) \<Rightarrow> package_file \<Rightarrow> cli_options \<Rightarrow> string \<Rightarrow>
   PackageManager \<Rightarrow> (string \<times> string) list \<Rightarrow> failure list \<Rightarrow> 'w \<Rightarrow> 'w outcome" where
  "finishInstall spawnSync file options registry packageManager resolved failures w =
     (let failureReport =
            (if failures \<noteq> [] then
               nl ''Dependencies that could not be resolved safely:'' # map failure_line failures
             else [])
      in
      if failures \<noteq> [] \<and> opt_strict options then
        \<lparr>out_exit = 1, out_resolved = resolved, out_failures = failures,
         out_report = failureReport, out_written = None, out_command = None, out_world = w\<rparr>
      else if resolved = [] then
        \<lparr>out_exit = (if opt_strict options \<and> failures \<noteq> [] then 1 else 0),
         out_resolved = resolved, out_failures = failures,
         out_report = failureReport @ [nl ''No dependencies qualified for installation.''],
         out_written = None, out_command = None, out_world = w\<rparr>
      else
        (let report = failureReport @ [nl ''Safe versions to install:'']
                      @ map (resolved_line (opt_ignoreSet options)) resolved
         in
         if opt_dryRun options then
           \<lparr>out_exit = 0, out_resolved = resolved, out_failures = failures,
            out_report = report @ [nl ''Dry run enabled. No changes were made.''],
            out_written = None, out_command = None, out_world = w\<rparr>
         else
           (let r = runStrategy spawnSync file (opt_strategy options) resolved registry
                      packageManager
            in \<lparr>out_exit = sr_exit r, out_resolved = resolved, out_failures = failures,
                out_report = report, out_written = sr_written r,
                out_command = sr_command r, out_world = w\<rparr>)))"

definition collectDependencies ::
  "string list \<Rightarrow> package_file \<Rightarrow> bool \<Rightarrow> bool \<Rightarrow> thrown + (string \<times> string) list" where
  \<comment> \<open>\<open>packages.length > 0 ? collectFromArgs(packages) : collectFromPackageJson(...)\<close>\<close>
  "collectDependencies packages file devOnly prodOnly =
     (if packages \<noteq> [] then collectFromArgs packages
      else collectFromPackageJson file devOnly prodOnly)"

definition installAction ::
  "'w resolver \<Rightarrow> (string \<Rightarrow> string list \<Rightarrow> int option) \<Rightarrow> int \<Rightarrow> package_file \<Rightarrow>
   string list \<Rightarrow> cli_options \<Rightarrow> 'w \<Rightarrow> 'w outcome" where
  "installAction resolver spawnSync now file packages options w =
     (let minAgeDays = opt_minAgeDays options in
      if minAgeDays = NaN \<or> js_negative minAgeDays then exit_with 1 w
      else
        (case opt_packageManager options of
           None \<Rightarrow> exit_with 1 w
         | Some packageManager \<Rightarrow>
             (let registry = or_else (opt_registry options) DEFAULT_REGISTRY;
                  ignoreSet = opt_ignoreSet options
              in
              if opt_dev options \<and> opt_prodOnly options then exit_with 1 w
              else
                (case collectDependencies packages file (opt_dev options)
                        (opt_prodOnly options) of
                   Inl e \<Rightarrow> exit_with 1 w
                 | Inr dependencyMap \<Rightarrow>
                     if dependencyMap = [] then exit_with 0 w
                     else
                       (case cutoffDate_of now minAgeDays of
                          None \<Rightarrow> exit_with 1 w
                        | Some cutoff \<Rightarrow>
                            (case resolveAll resolver registry cutoff ignoreSet
                                    dependencyMap [] [] w of
                               (resolved, failures, w') \<Rightarrow>
                                 finishInstall spawnSync file options registry
                                   packageManager resolved failures w'))))))"

section \<open>The version resolver\<close>

text \<open>
  Modelled from the spec: \<open>resolver.js\<close>, which the CLI imports \<open>resolveSafeVersion\<close>
  from, is missing from the sources. The definitions of this section follow the data
  model of the specification and the six steps of its algorithm. The semver library and
  the date parser are parameters: \<open>satisfies version range\<close> is the range test, \<open>prec\<close>
  maps a version to its place in the precedence order, \<open>parseDate\<close> reads a timestamp as
  milliseconds (\<open>None\<close>: unparsable), and \<open>fetchMetadata\<close> is the metadata source.
  Of \<open>versions\<close> only the keys are kept, the records behind them being opaque.
\<close>

record PackageMetadata =
  meta_name :: string
  meta_versions :: "string list"
  meta_publishTimes :: "string \<rightharpoonup> string"
  meta_distTags :: "string \<rightharpoonup> string"

datatype fetch_error = NotFoundError string | TransportError string

definition thrown_of :: "fetch_error \<Rightarrow> thrown" where
  \<comment> \<open>Modelled from the spec: both kinds of failure are errors with a message (the
      classes are in \<open>resolver.js\<close>, which is missing); the message is all the CLI reads\<close>
  "thrown_of e = (case e of NotFoundError m \<Rightarrow> Error m | TransportError m \<Rightarrow> Error m)"

definition candidates :: "PackageMetadata \<Rightarrow> string list" where
  \<comment> \<open>Modelled from the spec: step 2 of \<open>resolveSafeVersion\<close> (\<open>resolver.js\<close> is missing):
      the keys of \<open>versions\<close> without the pseudo-keys\<close>
  "candidates meta =
     filter (\<lambda>v. v \<noteq> ''created'' \<and> v \<noteq> ''modified'') (meta_versions meta)"

definition inRange ::
  "(string \<Rightarrow> string \<Rightarrow> bool) \<Rightarrow> PackageMetadata \<Rightarrow> string \<Rightarrow> string list" where
  \<comment> \<open>Modelled from the spec: step 3 of \<open>resolveSafeVersion\<close> (\<open>resolver.js\<close> is missing)\<close>
  "inRange satisfies meta range' =
     (if range' = ''latest'' then
        (case meta_distTags meta ''latest'' of
           None \<Rightarrow> []
         | Some v \<Rightarrow> if v \<in> set (candidates meta) then [v] else [])
      else filter (\<lambda>v. satisfies v range') (candidates meta))"

definition oldEnough ::
  "(string \<Rightarrow> int option) \<Rightarrow> PackageMetadata \<Rightarrow> int \<Rightarrow> string \<Rightarrow> bool" where
  \<comment> \<open>Modelled from the spec: steps 4 and 6 of \<open>resolveSafeVersion\<close> (\<open>resolver.js\<close> is
      missing): the entry exists, parses, and is strictly earlier than the cutoff\<close>
  "oldEnough parseDate meta cutoffDate v =
     (case meta_publishTimes meta v of
        None \<Rightarrow> False
      | Some t \<Rightarrow> (case parseDate t of None \<Rightarrow> False | Some ms \<Rightarrow> ms < cutoffDate))"

definition qualifying ::
  "(string \<Rightarrow> string \<Rightarrow> bool) \<Rightarrow> (string \<Rightarrow> int option) \<Rightarrow> PackageMetadata \<Rightarrow>
   string \<Rightarrow> int \<Rightarrow> bool \<Rightarrow> string list" where
  \<comment> \<open>Modelled from the spec: the candidates that survive steps 3 and 4 of
      \<open>resolveSafeVersion\<close> (\<open>resolver.js\<close> is missing)\<close>
  "qualifying satisfies parseDate meta range' cutoffDate ignoreAge =
     filter (\<lambda>v. ignoreAge \<or> oldEnough parseDate meta cutoffDate v)
       (inRange satisfies meta range')"

fun highest :: "(string \<Rightarrow> 'k::linorder) \<Rightarrow> string list \<Rightarrow> string option" where
  \<comment> \<open>Modelled from the spec: step 5 of \<open>resolveSafeVersion\<close> (\<open>resolver.js\<close> is missing)\<close>
  "highest prec [] = None"
| "highest prec (v # vs) =
     (case highest prec vs of
        None \<Rightarrow> Some v
      | Some u \<Rightarrow> if prec v < prec u then Some u else Some v)"

definition selectVersion ::
  "(string \<Rightarrow> string \<Rightarrow> bool) \<Rightarrow> (string \<Rightarrow> 'k::linorder) \<Rightarrow> (string \<Rightarrow> int option) \<Rightarrow>
   PackageMetadata \<Rightarrow> string \<Rightarrow> int \<Rightarrow> bool \<Rightarrow> string option" where
  \<comment> \<open>Modelled from the spec: steps 2 to 6 of \<open>resolveSafeVersion\<close> (\<open>resolver.js\<close> is missing)\<close>
  "selectVersion satisfies prec parseDate meta range' cutoffDate ignoreAge =
     highest prec (qualifying satisfies parseDate meta range' cutoffDate ignoreAge)"

definition resolveSafeVersion ::
  "(string \<Rightarrow> string \<Rightarrow> bool) \<Rightarrow> (string \<Rightarrow> 'k::linorder) \<Rightarrow> (string \<Rightarrow> int option) \<Rightarrow>
   (string \<Rightarrow> string \<Rightarrow> 'w \<Rightarrow> (fetch_error + PackageMetadata) \<times> 'w) \<Rightarrow> 'w resolver" where
  \<comment> \<open>Modelled from the spec: \<open>resolveSafeVersion\<close> of \<open>resolver.js\<close>, which is missing: fetch
      the metadata (step 1), propagate its error, or select a version\<close>
  "resolveSafeVersion satisfies prec parseDate fetchMetadata request w =
     (case fetchMetadata (req_name request) (req_registry request) w of
        (Inl e, w') \<Rightarrow> (Inl (thrown_of e), w')
      | (Inr meta, w') \<Rightarrow>
          (Inr (selectVersion satisfies prec parseDate meta (req_range request)
                  (req_cutoffDate request) (req_ignoreAge request)), w'))"

definition fixtureBackend ::
  "(string \<times> PackageMetadata) list \<Rightarrow> string \<Rightarrow> string \<Rightarrow> 'w \<Rightarrow>
   (fetch_error + PackageMetadata) \<times> 'w" where
  \<comment> \<open>Modelled from the spec: the fixture backend of the metadata source (\<open>resolver.js\<close> is
      missing): a table keyed by package name; a name that is absent is a \<open>NotFoundError\<close>.
      The wording of the message is not fixed by the spec.\<close>
  "fixtureBackend fixtures name registry w =
     (case map_of fixtures name of
        None \<Rightarrow> (Inl (NotFoundError (''Package not found: '' @ name)), w)
      | Some meta \<Rightarrow> (Inr meta, w))"

section \<open>A semver fragment and ISO timestamps, for the scenarios\<close>

text \<open>
  The scenarios need a range test, a precedence and a date parser to run on. The
  fragment below covers release versions \<open>MAJOR.MINOR.PATCH\<close> and the ranges \<open>*\<close>,
  \<open>^X.Y.Z\<close>, \<open>~X.Y.Z\<close> and \<open>X.Y.Z\<close> with the meaning the semver specification gives
  them; any other version or range satisfies nothing. Precedence is the lexicographic
  order of the three numbers, a string that is no version coming first.
\<close>

definition digit :: "char \<Rightarrow> nat option" where
  "digit c = (let n = (of_char c :: nat) in if 48 \<le> n \<and> n \<le> 57 then Some (n - 48) else None)"

fun digits_acc :: "string \<Rightarrow> nat \<Rightarrow> nat option" where
  "digits_acc [] acc = Some acc"
| "digits_acc (c # cs) acc =
     (case digit c of None \<Rightarrow> None | Some d \<Rightarrow> digits_acc cs (10 * acc + d))"

definition decimal :: "string \<Rightarrow> nat option" where
  "decimal s = (if s = [] then None else digits_acc s 0)"

definition numeric_id :: "string \<Rightarrow> nat option" where
  \<comment> \<open>a numeric identifier has no leading zero\<close>
  "numeric_id s = (if length s > 1 \<and> hd s = CHR ''0'' then None else decimal s)"

fun splitOn :: "char \<Rightarrow> string \<Rightarrow> string list" where
  "splitOn c [] = [[]]"
| "splitOn c (x # xs) =
     (if x = c then [] # splitOn c xs
      else (case splitOn c xs of [] \<Rightarrow> [[x]] | p # ps \<Rightarrow> (x # p) # ps))"

definition parse_version :: "string \<Rightarrow> (nat \<times> nat \<times> nat) option" where
  "parse_version s =
     (case map numeric_id (splitOn CHR ''.'' s) of
        [Some major, Some minor, Some patch] \<Rightarrow> Some (major, minor, patch)
      | _ \<Rightarrow> None)"

definition caret_upper :: "nat \<times> nat \<times> nat \<Rightarrow> nat \<times> nat \<times> nat" where
  "caret_upper b =
     (case b of (major, minor, patch) \<Rightarrow>
        if major > 0 then (major + 1, 0, 0)
        else if minor > 0 then (0, minor + 1, 0)
        else (0, 0, patch + 1))"

definition tilde_upper :: "nat \<times> nat \<times> nat \<Rightarrow> nat \<times> nat \<times> nat" where
  "tilde_upper b = (case b of (major, minor, patch) \<Rightarrow> (major, minor + 1, 0))"

definition semver_satisfies :: "string \<Rightarrow> string \<Rightarrow> bool" where
  "semver_satisfies version range' =
     (case parse_version version of
        None \<Rightarrow> False
      | Some v \<Rightarrow>
          if range' = ''*'' then True
          else if startsWith range' ''^'' then
            (case parse_version (drop 1 range') of
               None \<Rightarrow> False
             | Some b \<Rightarrow> b \<le> v \<and> v < caret_upper b)
          else if startsWith range' ''~'' then
            (case parse_version (drop 1 range') of
               None \<Rightarrow> False
             | Some b \<Rightarrow> b \<le> v \<and> v < tilde_upper b)
          else parse_version range' = Some v)"

definition semver_prec :: "string \<Rightarrow> (nat \<times> nat \<times> nat) option" where
  "semver_prec version = parse_version version"

text \<open>
  Timestamps in the form \<open>Date.prototype.toISOString\<close> writes and the registry serves,
  \<open>YYYY-MM-DDTHH:mm:ss.sssZ\<close>, read as milliseconds since the epoch.
\<close>

definition days_from_civil :: "int \<Rightarrow> int \<Rightarrow> int \<Rightarrow> int" where
  "days_from_civil y m d =
     (let y' = (if m \<le> 2 then y - 1 else y);
          era = y' div 400;
          yoe = y' - era * 400;
          doy = (153 * (if m > 2 then m - 3 else m + 9) + 2) div 5 + d - 1;
          doe = yoe * 365 + yoe div 4 - yoe div 100 + doy
      in era * 146097 + doe - 719468)"

definition days_in_month :: "int \<Rightarrow> int \<Rightarrow> int" where
  "days_in_month y m =
     (if m = 2 then (if y mod 4 = 0 \<and> (y mod 100 \<noteq> 0 \<or> y mod 400 = 0) then 29 else 28)
      else if m = 4 \<or> m = 6 \<or> m = 9 \<or> m = 11 then 30 else 31)"

definition parseIso :: "string \<Rightarrow> int option" where
  "parseIso s =
     (if length s = 24 \<and> s ! 4 = CHR ''-'' \<and> s ! 7 = CHR ''-'' \<and> s ! 10 = CHR ''T''
         \<and> s ! 13 = CHR '':'' \<and> s ! 16 = CHR '':'' \<and> s ! 19 = CHR ''.'' \<and> s ! 23 = CHR ''Z''
      then
        (case those (map (\<lambda>(a, b). decimal (slice s a b))
                       [(0, 4), (5, 7), (8, 10), (11, 13), (14, 16), (17, 19), (20, 23)]) of
           Some [y, mo, d, h, mi, sec, ms] \<Rightarrow>
             if 1 \<le> mo \<and> mo \<le> 12 \<and> 1 \<le> d \<and> int d \<le> days_in_month (int y) (int mo)
                \<and> h \<le> 23 \<and> mi \<le> 59 \<and> sec \<le> 59
             then Some ((((days_from_civil (int y) (int mo) (int d) * 24 + int h) * 60
                          + int mi) * 60 + int sec) * 1000 + int ms)
             else None
         | _ \<Rightarrow> None)
      else None)"

section \<open>The fixtures of the integration tests\<close>

text \<open>
  The registry fixtures of the CLI's integration tests, as \<open>createPackage\<close> builds them,
  with the clock of the test at 2025-06-01T12:00:00.000Z.
\<close>

definition test_now :: int where
  "test_now = 1748779200000"

definition DAY_IN_MS :: int where
  "DAY_IN_MS = 24 * 60 * 60 * 1000"

definition alpha :: PackageMetadata where
  \<comment> \<open>1.0.0 is 400 days old, 1.1.0 is 150 days old, 1.2.0 is 20 days old\<close>
  "alpha =
     \<lparr>meta_name = ''alpha'',
      meta_versions = [''1.0.0'', ''1.1.0'', ''1.2.0''],
      meta_publishTimes = map_of
        [(''created'', ''2022-09-05T12:00:00.000Z''), (''modified'', ''2025-05-31T12:00:00.000Z''),
         (''1.0.0'', ''2024-04-27T12:00:00.000Z''), (''1.1.0'', ''2025-01-02T12:00:00.000Z''),
         (''1.2.0'', ''2025-05-12T12:00:00.000Z'')],
      meta_distTags = map_of [(''latest'', ''1.2.0'')]\<rparr>"

definition beta :: PackageMetadata where
  \<comment> \<open>2.0.0 is 200 days old, 2.1.0 is 95 days old, 2.2.0 is 5 days old\<close>
  "beta =
     \<lparr>meta_name = ''beta'',
      meta_versions = [''2.0.0'', ''2.1.0'', ''2.2.0''],
      meta_publishTimes = map_of
        [(''created'', ''2022-09-05T12:00:00.000Z''), (''modified'', ''2025-05-31T12:00:00.000Z''),
         (''2.0.0'', ''2024-11-13T12:00:00.000Z''), (''2.1.0'', ''2025-02-26T12:00:00.000Z''),
         (''2.2.0'', ''2025-05-27T12:00:00.000Z'')],
      meta_distTags = map_of [(''latest'', ''2.2.0'')]\<rparr>"

definition recent :: PackageMetadata where
  \<comment> \<open>1.0.0 is 15 days old, 1.1.0 is 5 days old\<close>
  "recent =
     \<lparr>meta_name = ''recent'',
      meta_versions = [''1.0.0'', ''1.1.0''],
      meta_publishTimes = map_of
        [(''created'', ''2022-09-05T12:00:00.000Z''), (''modified'', ''2025-05-31T12:00:00.000Z''),
         (''1.0.0'', ''2025-05-17T12:00:00.000Z''), (''1.1.0'', ''2025-05-27T12:00:00.000Z'')],
      meta_distTags = map_of [(''latest'', ''1.1.0'')]\<rparr>"

definition alpha_young :: PackageMetadata where
  \<comment> \<open>1.1.0 is 7 days old\<close>
  "alpha_young =
     \<lparr>meta_name = ''alpha'',
      meta_versions = [''1.1.0''],
      meta_publishTimes = map_of
        [(''created'', ''2022-09-05T12:00:00.000Z''), (''modified'', ''2025-05-31T12:00:00.000Z''),
         (''1.1.0'', ''2025-05-25T12:00:00.000Z'')],
      meta_distTags = map_of [(''latest'', ''1.1.0'')]\<rparr>"

definition beta_old :: PackageMetadata where
  \<comment> \<open>2.0.0 is 220 days old\<close>
  "beta_old =
     \<lparr>meta_name = ''beta'',
      meta_versions = [''2.0.0''],
      meta_publishTimes = map_of
        [(''created'', ''2022-09-05T12:00:00.000Z''), (''modified'', ''2025-05-31T12:00:00.000Z''),
         (''2.0.0'', ''2024-10-24T12:00:00.000Z'')],
      meta_distTags = map_of [(''latest'', ''2.0.0'')]\<rparr>"

text \<open>
  The resolver of the tests: the fixture backend, and the fragment above for the library
  calls. The options are the defaults of the command, with \<open>--dry-run\<close>, and
  \<open>test_package_json\<close> is the \<open>package.json\<close> of the third test.
\<close>

definition test_resolver :: "(string \<times> PackageMetadata) list \<Rightarrow> unit resolver" where
  "test_resolver fixtures =
     resolveSafeVersion semver_satisfies semver_prec parseIso (fixtureBackend fixtures)"

definition test_options :: cli_options where
  "test_options =
     \<lparr>opt_minAgeDays = Finite 90, opt_registry = DEFAULT_REGISTRY,
      opt_packageManager = Some Npm, opt_dryRun = True, opt_strict = False, opt_dev = False,
      opt_prodOnly = False, opt_ignoreSet = {}, opt_strategy = ''direct''\<rparr>"

definition test_package_json :: PackageJson where
  "test_package_json =
     \<lparr>dependencies = Some [(''alpha'', ''latest'')],
      devDependencies = Some [(''beta'', ''^2.0.0'')],
      overrides = None, pnpm = None,
      rest = [(''name'', JStr ''fixture''), (''version'', JStr ''1.0.0'')]\<rparr>"

definition no_spawn :: "string \<Rightarrow> string list \<Rightarrow> int option" where
  \<comment> \<open>the fake package manager of the tests: it exits with status 0\<close>
  "no_spawn command args = Some 0"

definition gamma :: PackageMetadata where
  \<comment> \<open>a package whose newer versions have no timestamp, or one that does not parse\<close>
  "gamma =
     \<lparr>meta_name = ''gamma'',
      meta_versions = [''1.0.0'', ''1.1.0'', ''1.2.0''],
      meta_publishTimes = map_of
        [(''created'', ''2022-09-05T12:00:00.000Z''), (''modified'', ''2025-05-31T12:00:00.000Z''),
         (''1.0.0'', ''2024-04-27T12:00:00.000Z''), (''1.2.0'', ''last spring'')],
      meta_distTags = map_of [(''latest'', ''1.2.0'')]\<rparr>"

definition alpha_two :: PackageMetadata where
  \<comment> \<open>2.0.0 is 120 days old\<close>
  "alpha_two =
     \<lparr>meta_name = ''alpha'',
      meta_versions = [''2.0.0''],
      meta_publishTimes = map_of
        [(''created'', ''2022-09-05T12:00:00.000Z''), (''modified'', ''2025-05-31T12:00:00.000Z''),
         (''2.0.0'', ''2025-02-01T12:00:00.000Z'')],
      meta_distTags = map_of [(''latest'', ''2.0.0'')]\<rparr>"

definition bare_package_json :: PackageJson where
  \<comment> \<open>the \<open>package.json\<close> of the fifth test\<close>
  "bare_package_json =
     \<lparr>dependencies = None, devDependencies = None, overrides = None, pnpm = None,
      rest = [(''name'', JStr ''fixture''), (''version'', JStr ''1.0.0'')]\<rparr>"

definition pinned_package_json :: PackageJson where
  \<comment> \<open>a \<open>package.json\<close> that has overrides and other \<open>pnpm\<close> settings already\<close>
  "pinned_package_json =
     \<lparr>dependencies = Some [(''alpha'', ''^1.0.0''), (''left-pad'', ''^1.3.0'')],
      devDependencies = None,
      overrides = Some [(''left-pad'', ''1.3.0''), (''alpha'', ''1.0.0'')],
      pnpm = Some \<lparr>pnpm_overrides = Some [(''left-pad'', ''1.3.0'')],
                   pnpm_rest = [(''shamefullyHoist'', JBool True)]\<rparr>,
      rest = [(''name'', JStr ''fixture''), (''version'', JStr ''1.0.0'')]\<rparr>"

section \<open>What the loop is compared with\<close>

text \<open>
  The answers a resolver gives when it is called on a list of requests, one after the
  other, each call in the world the call before it has left; and the world after the
  last call.
\<close>

fun answers :: "'w resolver \<Rightarrow> request list \<Rightarrow> 'w \<Rightarrow> (thrown + string option) list" where
  "answers resolver [] w = []"
| "answers resolver (r # rs) w = fst (resolver r w) # answers resolver rs (snd (resolver r w))"

fun world_after :: "'w resolver \<Rightarrow> request list \<Rightarrow> 'w \<Rightarrow> 'w" where
  "world_after resolver [] w = w"
| "world_after resolver (r # rs) w = world_after resolver rs (snd (resolver r w))"

text \<open>
  A resolver that answers as \<open>resolver\<close> does and keeps, beside the world, the list of
  the requests it has received.
\<close>

definition logged :: "'w resolver \<Rightarrow> (request list \<times> 'w) resolver" where
  "logged resolver request lw =
     (case lw of (seen, w) \<Rightarrow>
        (case resolver request w of (a, w') \<Rightarrow> (a, (seen @ [request], w'))))"

text \<open>
  The three outcomes of one entry, read off the resolver's answer: a version, no
  version (\<open>null\<close>, or any other falsy value: the empty string), or something thrown.
\<close>

definition success_of ::
  "(string \<times> string) \<times> (thrown + string option) \<Rightarrow> (string \<times> string) option" where
  "success_of x =
     (case x of ((name, range'), a) \<Rightarrow>
        (case a of
           Inr (Some version) \<Rightarrow> if version = [] then None else Some (name, version)
         | _ \<Rightarrow> None))"

definition failure_of ::
  "(string \<times> string) \<times> (thrown + string option) \<Rightarrow> failure option" where
  "failure_of x =
     (case x of ((name, range'), a) \<Rightarrow>
        (case a of
           Inl e \<Rightarrow> Some \<lparr>failure_name = name, failure_range = range',
                           failure_reason = error_reason e\<rparr>
         | Inr None \<Rightarrow> Some \<lparr>failure_name = name, failure_range = range',
                              failure_reason = NO_VERSION\<rparr>
         | Inr (Some version) \<Rightarrow>
             if version = [] then Some \<lparr>failure_name = name, failure_range = range',
                                        failure_reason = NO_VERSION\<rparr>
             else None))"

text \<open>
  The \<open>pnpm\<close> settings the overrides strategy starts from: those of the file, or none.
\<close>

definition old_pnpm :: "PackageJson \<Rightarrow> pnpm_config" where
  "old_pnpm pkg =
     (case pnpm pkg of Some c \<Rightarrow> c | None \<Rightarrow> \<lparr>pnpm_overrides = None, pnpm_rest = []\<rparr>)"


section \<open>\<open>parsePackageSpec\<close>\<close>

lemma index_from_none: "c \<notin> set xs \<Longrightarrow> index_from c xs i = - 1"
  by (induction xs arbitrary: i) auto

lemma index_from_first:
  "c \<notin> set a \<Longrightarrow> index_from c (a @ c # b) i = i + int (length a)"
  by (induction a arbitrary: i) auto

lemma last_index_from_none: "c \<notin> set xs \<Longrightarrow> last_index_from c xs i found = found"
  by (induction xs arbitrary: i) auto

lemma last_index_from_last:
  "c \<notin> set b \<Longrightarrow> last_index_from c (a @ c # b) i found = i + int (length a)"
  by (induction a arbitrary: i found) (auto simp: last_index_from_none)


lemma parse_empty: "parsePackageSpec [] = Inl (Error ''Empty package spec provided'')"
  by (simp add: parsePackageSpec_def)

lemma parse_total: "spec \<noteq> [] \<Longrightarrow> \<exists>p. parsePackageSpec spec = Inr p"
  by (simp add: parsePackageSpec_def Let_def)

lemma parse_scoped_bare:
  "CHR ''@'' \<notin> set a \<Longrightarrow>
   parsePackageSpec (CHR ''@'' # a) = Inr \<lparr>spec_name = CHR ''@'' # a, spec_range = ''latest''\<rparr>"
  by (simp add: parsePackageSpec_def startsWith_def indexOf_def index_from_none)

lemma parse_scoped_at:
  assumes "CHR ''@'' \<notin> set a"
  shows "parsePackageSpec (CHR ''@'' # a @ CHR ''@'' # b) =
         Inr \<lparr>spec_name = CHR ''@'' # a, spec_range = (if b = [] then ''latest'' else b)\<rparr>"
proof -
  have "indexOf (CHR ''@'' # a @ CHR ''@'' # b) CHR ''@'' 1 = 1 + int (length a)"
    using assms by (simp add: indexOf_def index_from_first)
  then show ?thesis
    by (simp add: parsePackageSpec_def startsWith_def slice_def slice_from_def or_else_def
        nat_add_distrib)
qed

lemma parse_unscoped_at:
  assumes "c \<noteq> CHR ''@''" and "CHR ''@'' \<notin> set b"
  shows "parsePackageSpec (c # a @ CHR ''@'' # b) =
         Inr \<lparr>spec_name = c # a, spec_range = (if b = [] then ''latest'' else b)\<rparr>"
proof -
  have "lastIndexOf ((c # a) @ CHR ''@'' # b) CHR ''@'' = 0 + int (length (c # a))"
    unfolding lastIndexOf_def using assms(2) by (rule last_index_from_last)
  then have "lastIndexOf (c # a @ CHR ''@'' # b) CHR ''@'' = 1 + int (length a)"
    by simp
  then show ?thesis
    using assms(1)
    by (simp add: parsePackageSpec_def startsWith_def slice_def slice_from_def or_else_def
        nat_add_distrib)
qed

lemma parse_unscoped_bare:
  assumes "spec \<noteq> []" and "CHR ''@'' \<notin> set spec"
  shows "parsePackageSpec spec = Inr \<lparr>spec_name = spec, spec_range = ''latest''\<rparr>"
proof -
  from assms obtain c a where s: "spec = c # a" and c: "c \<noteq> CHR ''@''"
    by (cases spec) auto
  have "lastIndexOf spec CHR ''@'' = - 1"
    using assms(2) by (simp add: lastIndexOf_def last_index_from_none)
  then show ?thesis
    using s c by (simp add: parsePackageSpec_def startsWith_def)
qed

text \<open>
  Claim C9. \<open>parsePackageSpec\<close> throws on the empty string and returns a name and a range
  for every other spec. A spec that starts with \<open>@\<close> is split at its second \<open>@\<close>, and
  has the range \<open>latest\<close> when there is none; any other spec is split at its last \<open>@\<close>;
  a spec without \<open>@\<close>, and a spec with nothing after the \<open>@\<close> it is split at, has the
  range \<open>latest\<close>.
\<close>

theorem parsePackageSpec_cases:
  "parsePackageSpec [] = Inl (Error ''Empty package spec provided'')
   \<and> (\<forall>spec. spec \<noteq> [] \<longrightarrow> (\<exists>p. parsePackageSpec spec = Inr p))
   \<and> (\<forall>a. CHR ''@'' \<notin> set a \<longrightarrow>
        parsePackageSpec (CHR ''@'' # a) =
          Inr \<lparr>spec_name = CHR ''@'' # a, spec_range = ''latest''\<rparr>)
   \<and> (\<forall>a b. CHR ''@'' \<notin> set a \<longrightarrow>
        parsePackageSpec (CHR ''@'' # a @ CHR ''@'' # b) =
          Inr \<lparr>spec_name = CHR ''@'' # a, spec_range = (if b = [] then ''latest'' else b)\<rparr>)
   \<and> (\<forall>c a b. c \<noteq> CHR ''@'' \<and> CHR ''@'' \<notin> set b \<longrightarrow>
        parsePackageSpec (c # a @ CHR ''@'' # b) =
          Inr \<lparr>spec_name = c # a, spec_range = (if b = [] then ''latest'' else b)\<rparr>)
   \<and> (\<forall>spec. spec \<noteq> [] \<and> CHR ''@'' \<notin> set spec \<longrightarrow>
        parsePackageSpec spec = Inr \<lparr>spec_name = spec, spec_range = ''latest''\<rparr>)"
  using parse_empty parse_total parse_scoped_bare parse_scoped_at parse_unscoped_at
    parse_unscoped_bare
  by blast

theorem parsePackageSpec_cases_witness:
  "parsePackageSpec ''@scope/pkg'' = Inr \<lparr>spec_name = ''@scope/pkg'', spec_range = ''latest''\<rparr>
   \<and> parsePackageSpec ''@scope/pkg@^1.2.0'' =
       Inr \<lparr>spec_name = ''@scope/pkg'', spec_range = ''^1.2.0''\<rparr>
   \<and> parsePackageSpec ''@scope/pkg@'' = Inr \<lparr>spec_name = ''@scope/pkg'', spec_range = ''latest''\<rparr>
   \<and> parsePackageSpec ''beta@^2'' = Inr \<lparr>spec_name = ''beta'', spec_range = ''^2''\<rparr>
   \<and> parsePackageSpec ''a@b@c'' = Inr \<lparr>spec_name = ''a@b'', spec_range = ''c''\<rparr>
   \<and> parsePackageSpec ''beta@'' = Inr \<lparr>spec_name = ''beta'', spec_range = ''latest''\<rparr>
   \<and> parsePackageSpec ''alpha'' = Inr \<lparr>spec_name = ''alpha'', spec_range = ''latest''\<rparr>
   \<and> (\<exists>p. parsePackageSpec ''alpha'' = Inr p)"
proof -
  note c = parsePackageSpec_cases
  have 1: "parsePackageSpec (CHR ''@'' # ''scope/pkg'') =
             Inr \<lparr>spec_name = CHR ''@'' # ''scope/pkg'', spec_range = ''latest''\<rparr>"
    using c[THEN conjunct2, THEN conjunct2, THEN conjunct1, rule_format, of "''scope/pkg''"]
    by simp
  have 2: "parsePackageSpec (CHR ''@'' # ''scope/pkg'' @ CHR ''@'' # ''^1.2.0'') =
             Inr \<lparr>spec_name = CHR ''@'' # ''scope/pkg'',
                  spec_range = (if ''^1.2.0'' = [] then ''latest'' else ''^1.2.0'')\<rparr>"
    using c[THEN conjunct2, THEN conjunct2, THEN conjunct2, THEN conjunct1, rule_format,
        of "''scope/pkg''" "''^1.2.0''"]
    by simp
  have 3: "parsePackageSpec (CHR ''@'' # ''scope/pkg'' @ CHR ''@'' # []) =
             Inr \<lparr>spec_name = CHR ''@'' # ''scope/pkg'',
                  spec_range = (if ([]::string) = [] then ''latest'' else [])\<rparr>"
    using c[THEN conjunct2, THEN conjunct2, THEN conjunct2, THEN conjunct1, rule_format,
        of "''scope/pkg''" "[]"]
    by simp
  have 4: "parsePackageSpec (CHR ''b'' # ''eta'' @ CHR ''@'' # ''^2'') =
             Inr \<lparr>spec_name = CHR ''b'' # ''eta'',
                  spec_range = (if ''^2'' = [] then ''latest'' else ''^2'')\<rparr>"
    using c[THEN conjunct2, THEN conjunct2, THEN conjunct2, THEN conjunct2, THEN conjunct1,
        rule_format, of "CHR ''b''" "''^2''" "''eta''"]
    by simp
  have 5: "parsePackageSpec (CHR ''a'' # ''@b'' @ CHR ''@'' # ''c'') =
             Inr \<lparr>spec_name = CHR ''a'' # ''@b'',
                  spec_range = (if ''c'' = [] then ''latest'' else ''c'')\<rparr>"
    using c[THEN conjunct2, THEN conjunct2, THEN conjunct2, THEN conjunct2, THEN conjunct1,
        rule_format, of "CHR ''a''" "''c''" "''@b''"]
    by simp
  have 6: "parsePackageSpec (CHR ''b'' # ''eta'' @ CHR ''@'' # []) =
             Inr \<lparr>spec_name = CHR ''b'' # ''eta'',
                  spec_range = (if ([]::string) = [] then ''latest'' else [])\<rparr>"
    using c[THEN conjunct2, THEN conjunct2, THEN conjunct2, THEN conjunct2, THEN conjunct1,
        rule_format, of "CHR ''b''" "[]" "''eta''"]
    by simp
  have 7: "parsePackageSpec ''alpha'' = Inr \<lparr>spec_name = ''alpha'', spec_range = ''latest''\<rparr>"
    using c[THEN conjunct2, THEN conjunct2, THEN conjunct2, THEN conjunct2, THEN conjunct2,
        rule_format, of "''alpha''"]
    by simp
  have 8: "\<exists>p. parsePackageSpec ''alpha'' = Inr p"
    using c[THEN conjunct2, THEN conjunct1, rule_format, of "''alpha''"] by simp
  from 1 2 3 4 5 6 7 8 show ?thesis by simp
qed

section \<open>The resolution loop\<close>

lemma set_all_Nil: "set_all m [] = m"
  by (simp add: set_all_def)

lemma set_all_Cons: "set_all m ((k, v) # es) = set_all (AList.update k v m) es"
  by (simp add: set_all_def)

lemma resolveAll_general:
  "resolveAll R reg c ig deps res fs w =
     (set_all res (List.map_filter success_of
        (zip deps (answers R (map (mkRequest reg c ig) deps) w))),
      fs @ List.map_filter failure_of
        (zip deps (answers R (map (mkRequest reg c ig) deps) w)),
      world_after R (map (mkRequest reg c ig) deps) w)"
proof (induction deps arbitrary: res fs w)
  case Nil
  show ?case by (simp add: set_all_Nil map_filter_simps)
next
  case (Cons d deps)
  obtain name rng where d: "d = (name, rng)" by (cases d)
  obtain a w' where r: "R (mkRequest reg c ig (name, rng)) w = (a, w')"
    by (cases "R (mkRequest reg c ig (name, rng)) w")
  show ?case
  proof (cases a)
    case (Inl e)
    with d r Cons.IH show ?thesis
      by (simp add: map_filter_simps success_of_def failure_of_def)
  next
    case (Inr version)
    show ?thesis
    proof (cases version)
      case None
      with Inr d r Cons.IH show ?thesis
        by (simp add: map_filter_simps success_of_def failure_of_def)
    next
      case (Some v)
      with Inr d r Cons.IH show ?thesis
        by (simp add: map_filter_simps success_of_def failure_of_def set_all_Cons)
    qed
  qed
qed

lemma length_answers: "length (answers R rs w) = length rs"
  by (induction rs arbitrary: w) auto

lemma world_after_logged:
  "world_after (logged R) rs (seen, w) = (seen @ rs, world_after R rs w)"
proof (induction rs arbitrary: seen w)
  case Nil
  show ?case by simp
next
  case (Cons r rs)
  obtain a w' where "R r w = (a, w')" by (cases "R r w")
  with Cons.IH show ?case by (simp add: logged_def)
qed

lemma distinct_set_all:
  "distinct (map fst m) \<Longrightarrow> distinct (map fst (set_all m es))"
proof (induction es arbitrary: m)
  case Nil
  then show ?case by (simp add: set_all_Nil)
next
  case (Cons e es)
  obtain k v where "e = (k, v)" by (cases e)
  with Cons show ?case by (simp add: set_all_Cons distinct_update)
qed

lemma set_all_distinct_id:
  "distinct (map fst m @ map fst es) \<Longrightarrow> set_all m es = m @ es"
proof (induction es arbitrary: m)
  case Nil
  then show ?case by (simp add: set_all_Nil)
next
  case (Cons e es)
  obtain k v where e: "e = (k, v)" by (cases e)
  from Cons.prems e have k: "k \<notin> fst ` set m" by auto
  have u: "AList.update k v m = m @ [(k, v)]"
    using k by (induction m) auto
  from Cons.prems e have "distinct (map fst (m @ [(k, v)]) @ map fst es)" by auto
  from Cons.IH[OF this] e u show ?case by (simp add: set_all_Cons)
qed

lemma keys_set_all: "fst ` set (set_all m es) = fst ` set m \<union> fst ` set es"
proof (induction es arbitrary: m)
  case Nil
  show ?case by (simp add: set_all_Nil)
next
  case (Cons e es)
  obtain k v where "e = (k, v)" by (cases e)
  with Cons.IH show ?case by (auto simp: set_all_Cons dom_update)
qed

lemma map_of_set_all_other:
  "k \<notin> fst ` set es \<Longrightarrow> map_of (set_all m es) k = map_of m k"
proof (induction es arbitrary: m)
  case Nil
  show ?case by (simp add: set_all_Nil)
next
  case (Cons e es)
  obtain k' v where e: "e = (k', v)" by (cases e)
  with Cons.prems have "k \<noteq> k'" and "k \<notin> fst ` set es" by auto
  with Cons.IH e show ?case by (simp add: set_all_Cons update_conv')
qed

lemma distinct_collectFromArgs_loop:
  "distinct (map fst m) \<Longrightarrow> collectFromArgs_loop specs m = Inr deps \<Longrightarrow> distinct (map fst deps)"
proof (induction specs arbitrary: m)
  case Nil
  then show ?case by simp
next
  case (Cons spec specs)
  from Cons.prems(2) obtain p where p: "parsePackageSpec spec = Inr p"
    and l: "collectFromArgs_loop specs (AList.update (spec_name p) (spec_range p) m) = Inr deps"
    by (auto split: sum.splits)
  have "distinct (map fst (AList.update (spec_name p) (spec_range p) m))"
    using Cons.prems(1) by (simp add: distinct_update)
  from Cons.IH[OF this l] show ?case .
qed

lemma distinct_collectDependencies:
  "collectDependencies packages file devOnly prodOnly = Inr deps \<Longrightarrow> distinct (map fst deps)"
  unfolding collectDependencies_def collectFromArgs_def collectFromPackageJson_def
  by (auto split: if_splits package_file.splits simp: Let_def distinct_set_all
      dest: distinct_collectFromArgs_loop[rotated])

lemma in_map_filter: "y \<in> set (List.map_filter f xs) \<longleftrightarrow> (\<exists>x \<in> set xs. f x = Some y)"
  by (induction xs) (auto simp: map_filter_simps split: option.splits)

lemma entry_in_zip:
  "i < length deps \<Longrightarrow> length as = length deps \<Longrightarrow> (deps ! i, as ! i) \<in> set (zip deps as)"
  by (metis length_zip min.idem nth_mem nth_zip)

lemma success_of_name: "success_of x = Some y \<Longrightarrow> fst y = fst (fst x)"
  by (cases x) (auto simp: success_of_def split: sum.splits option.splits if_splits)

lemma failure_of_name: "failure_of x = Some f \<Longrightarrow> failure_name f = fst (fst x)"
  by (cases x) (auto simp: failure_of_def split: sum.splits option.splits if_splits)

lemma failure_iff_no_success: "failure_of x \<noteq> None \<longleftrightarrow> success_of x = None"
  by (cases x) (auto simp: failure_of_def success_of_def split: sum.splits option.splits)

lemma map_map_filter:
  assumes "\<And>x y. f x = Some y \<Longrightarrow> h y = g x"
  shows "map h (List.map_filter f z) = map g (filter (\<lambda>x. f x \<noteq> None) z)"
proof (induction z)
  case Nil
  show ?case by (simp add: map_filter_simps)
next
  case (Cons x z)
  show ?case
  proof (cases "f x")
    case None
    with Cons show ?thesis by (simp add: map_filter_simps)
  next
    case (Some y)
    with Cons assms[OF Some] show ?thesis by (simp add: map_filter_simps)
  qed
qed

lemma map_fst_successes:
  "map fst (List.map_filter success_of z) = map (fst \<circ> fst) (filter (\<lambda>x. success_of x \<noteq> None) z)"
  by (rule map_map_filter) (simp add: success_of_name)

lemma map_name_failures:
  "map failure_name (List.map_filter failure_of z) =
   map (fst \<circ> fst) (filter (\<lambda>x. success_of x = None) z)"
proof -
  have "map failure_name (List.map_filter failure_of z) =
        map (fst \<circ> fst) (filter (\<lambda>x. failure_of x \<noteq> None) z)"
    by (rule map_map_filter) (simp add: failure_of_name)
  then show ?thesis by (simp only: failure_iff_no_success)
qed

lemma map_filter_distinct_keys:
  "distinct (map g z) \<Longrightarrow>
   map g (filter P z) = filter (\<lambda>n. n \<in> g ` {x \<in> set z. P x}) (map g z)"
proof (induction z)
  case Nil
  show ?case by simp
next
  case (Cons x z)
  then have out: "g x \<notin> g ` set z" and d: "distinct (map g z)" by auto
  have "filter (\<lambda>n. n \<in> g ` {y \<in> set (x # z). P y}) (map g z) =
        filter (\<lambda>n. n \<in> g ` {y \<in> set z. P y}) (map g z)"
  proof (intro filter_cong refl)
    fix n assume "n \<in> set (map g z)"
    then have "n \<noteq> g x" using out by (metis image_set)
    then show "(n \<in> g ` {y \<in> set (x # z). P y}) = (n \<in> g ` {y \<in> set z. P y})"
      by auto
  qed
  moreover have "g x \<in> g ` {y \<in> set (x # z). P y} \<longleftrightarrow> P x"
  proof
    assume "g x \<in> g ` {y \<in> set (x # z). P y}"
    then obtain y where y: "y \<in> set (x # z)" "P y" "g x = g y" by auto
    from y(1,3) out have "y = x" by (cases "y = x") auto
    with y(2) show "P x" by simp
  next
    assume "P x"
    then show "g x \<in> g ` {y \<in> set (x # z). P y}" by auto
  qed
  ultimately show ?case
    using Cons.IH[OF d] by simp
qed

lemma map_fst_zip_answers:
  "length as = length deps \<Longrightarrow> map (fst \<circ> fst) (zip deps as) = map fst deps"
  by (metis map_fst_zip map_map)

text \<open>The loop from empty containers, on a dependency map: its names are distinct.\<close>

lemma resolveAll_distinct:
  assumes d: "distinct (map fst deps)"
      and z: "z = zip deps (answers R (map (mkRequest reg c ig) deps) w)"
  shows "resolveAll R reg c ig deps [] [] w =
           (List.map_filter success_of z, List.map_filter failure_of z,
            world_after R (map (mkRequest reg c ig) deps) w)"
proof -
  have len: "length (answers R (map (mkRequest reg c ig) deps) w) = length deps"
    by (simp add: length_answers)
  have keys: "map (fst \<circ> fst) z = map fst deps"
    unfolding z using len by (rule map_fst_zip_answers)
  have "distinct (map (fst \<circ> fst) (filter (\<lambda>x. success_of x \<noteq> None) z))"
    using d keys by (metis distinct_map_filter)
  then have "distinct (map fst (List.map_filter success_of z))"
    by (simp only: map_fst_successes)
  then have "set_all [] (List.map_filter success_of z) = List.map_filter success_of z"
    using set_all_distinct_id[of "[]" "List.map_filter success_of z"] by simp
  then show ?thesis
    by (simp add: resolveAll_general z)
qed

lemma names_partition:
  assumes d: "distinct (map fst deps)"
      and len: "length as = length deps"
      and z: "z = zip deps as"
  shows "fst ` set (List.map_filter success_of z) \<inter>
           failure_name ` set (List.map_filter failure_of z) = {}"
    and "fst ` set (List.map_filter success_of z) \<union>
           failure_name ` set (List.map_filter failure_of z) = fst ` set deps"
    and "distinct (map fst (List.map_filter success_of z))"
    and "distinct (map failure_name (List.map_filter failure_of z))"
proof -
  have keys: "map (fst \<circ> fst) z = map fst deps"
    unfolding z using len by (rule map_fst_zip_answers)
  then have dz: "distinct (map (fst \<circ> fst) z)" using d by simp
  have s: "fst ` set (List.map_filter success_of z) =
           (fst \<circ> fst) ` {x \<in> set z. success_of x \<noteq> None}"
    using arg_cong[OF map_fst_successes[of z], of set] by simp
  have f: "failure_name ` set (List.map_filter failure_of z) =
           (fst \<circ> fst) ` {x \<in> set z. success_of x = None}"
    using arg_cong[OF map_name_failures[of z], of set] by simp
  have inj: "inj_on (fst \<circ> fst) (set z)"
    using dz by (simp add: distinct_map)
  show "fst ` set (List.map_filter success_of z) \<inter>
           failure_name ` set (List.map_filter failure_of z) = {}"
  proof -
    have "False" if a: "n \<in> (fst \<circ> fst) ` {x \<in> set z. success_of x \<noteq> None}"
      and b: "n \<in> (fst \<circ> fst) ` {x \<in> set z. success_of x = None}" for n
    proof -
      from a obtain x where x: "x \<in> set z" "success_of x \<noteq> None" "n = (fst \<circ> fst) x"
        by blast
      from b obtain y where y: "y \<in> set z" "success_of y = None" "n = (fst \<circ> fst) y"
        by blast
      from inj x(1,3) y(1,3) have "x = y" by (simp add: inj_on_def)
      with x(2) y(2) show False by simp
    qed
    then show ?thesis unfolding s f by blast
  qed
  have u: "{x \<in> set z. success_of x \<noteq> None} \<union> {x \<in> set z. success_of x = None} = set z"
    by auto
  have "fst ` set deps = (fst \<circ> fst) ` set z"
    using arg_cong[OF keys, of set] by simp
  with u show "fst ` set (List.map_filter success_of z) \<union>
           failure_name ` set (List.map_filter failure_of z) = fst ` set deps"
    unfolding s f by (simp only: image_Un[symmetric])
  show "distinct (map fst (List.map_filter success_of z))"
    using dz by (simp only: map_fst_successes) (metis distinct_map_filter)
  show "distinct (map failure_name (List.map_filter failure_of z))"
    using dz by (simp only: map_name_failures) (metis distinct_map_filter)
qed

lemma out_world_finishInstall:
  "out_world (finishInstall spawnSync file options registry pm resolved failures w) = w"
  by (simp add: finishInstall_def Let_def)

lemma resolveAll_world:
  "snd (snd (resolveAll R reg c ig deps res fs w)) = world_after R (map (mkRequest reg c ig) deps) w"
  by (simp add: resolveAll_general)

lemma installAction_log:
  assumes "req \<in> set (fst (out_world (installAction (logged R) spawnSync now file packages options ([], w))))"
  shows "\<exists>deps cutoff e. opt_minAgeDays options \<noteq> NaN
           \<and> \<not> js_negative (opt_minAgeDays options)
           \<and> cutoffDate_of now (opt_minAgeDays options) = Some cutoff
           \<and> collectDependencies packages file (opt_dev options) (opt_prodOnly options) = Inr deps
           \<and> e \<in> set deps
           \<and> req = mkRequest (or_else (opt_registry options) DEFAULT_REGISTRY) cutoff
                     (opt_ignoreSet options) e"
proof (cases "opt_minAgeDays options = NaN \<or> js_negative (opt_minAgeDays options)")
  case True
  with assms show ?thesis by (simp add: installAction_def exit_with_def Let_def)
next
  case False
  note d = this
  show ?thesis
  proof (cases "opt_packageManager options")
    case None
    with assms d show ?thesis by (simp add: installAction_def exit_with_def Let_def)
  next
    case (Some pm)
    note pm = this
    show ?thesis
    proof (cases "opt_dev options \<and> opt_prodOnly options")
      case True
      with assms d pm show ?thesis by (simp add: installAction_def exit_with_def Let_def)
    next
      case False
      note dp = this
      show ?thesis
      proof (cases "collectDependencies packages file (opt_dev options) (opt_prodOnly options)")
        case (Inl e)
        with assms d pm dp show ?thesis by (simp add: installAction_def exit_with_def Let_def)
      next
        case (Inr deps)
        note deps = this
        show ?thesis
        proof (cases "deps = []")
          case True
          with assms d pm dp deps show ?thesis
            by (simp add: installAction_def exit_with_def Let_def)
        next
          case False
          note ne = this
          show ?thesis
          proof (cases "cutoffDate_of now (opt_minAgeDays options)")
            case None
            with assms d pm dp deps ne show ?thesis
              by (simp add: installAction_def exit_with_def Let_def)
          next
            case (Some cutoff)
            let ?reg = "or_else (opt_registry options) DEFAULT_REGISTRY"
            let ?run = "resolveAll (logged R) ?reg cutoff (opt_ignoreSet options) deps [] [] ([], w)"
            have "out_world (installAction (logged R) spawnSync now file packages options ([], w))
                  = snd (snd ?run)"
              using d pm dp deps ne Some
              by (auto simp add: installAction_def Let_def out_world_finishInstall
                  split: prod.splits)
            also have "\<dots> = world_after (logged R)
                        (map (mkRequest ?reg cutoff (opt_ignoreSet options)) deps) ([], w)"
              by (rule resolveAll_world)
            finally have "fst (out_world (installAction (logged R) spawnSync now file packages
                                 options ([], w)))
                          = map (mkRequest ?reg cutoff (opt_ignoreSet options)) deps"
              by (simp add: world_after_logged)
            with assms obtain e where "e \<in> set deps"
              and "req = mkRequest ?reg cutoff (opt_ignoreSet options) e"
              by auto
            with d deps Some show ?thesis by (cases e) auto
          qed
        qed
      qed
    qed
  qed
qed

lemma entry_outcome:
  assumes i: "i < length deps"
      and z: "z = zip deps (answers R (map (mkRequest reg c ig) deps) w)"
  shows "(deps ! i, answers R (map (mkRequest reg c ig) deps) w ! i) \<in> set z"
  unfolding z using i by (intro entry_in_zip) (simp_all add: length_answers)

lemma failure_of_entry:
  "failure_of (d, a) =
     (case a of
        Inl e \<Rightarrow> Some \<lparr>failure_name = fst d, failure_range = snd d,
                        failure_reason = error_reason e\<rparr>
      | Inr None \<Rightarrow> Some \<lparr>failure_name = fst d, failure_range = snd d,
                           failure_reason = NO_VERSION\<rparr>
      | Inr (Some v) \<Rightarrow>
          if v = [] then Some \<lparr>failure_name = fst d, failure_range = snd d,
                                failure_reason = NO_VERSION\<rparr>
          else None)"
  by (cases d) (auto simp: failure_of_def split: sum.splits option.splits)

lemma success_of_entry:
  "success_of (d, a) =
     (case a of
        Inr (Some v) \<Rightarrow> if v = [] then None else Some (fst d, v)
      | _ \<Rightarrow> None)"
  by (cases d) (auto simp: success_of_def split: sum.splits option.splits)

text \<open>
  Claim C5. The loop runs to the end of the dependency map whatever the resolver throws
  or returns: the resolver receives one request for each entry, in the order of the
  entries, and every entry leaves its mark. An entry whose resolution throws gives the
  failure record with its name, its range and the reason read off the error; an entry
  whose resolution returns \<open>null\<close> gives the failure record with the fixed reason; any
  other entry has its name in the resolved map.
\<close>

theorem resolveAll_never_aborts:
  assumes run: "resolveAll R reg c ig deps [] [] w = (resolved, failures, w')"
  shows "w' = world_after R (map (mkRequest reg c ig) deps) w
       \<and> fst (snd (snd (resolveAll (logged R) reg c ig deps [] [] ([], w))))
           = map (mkRequest reg c ig) deps
       \<and> (\<forall>i<length deps.
            case answers R (map (mkRequest reg c ig) deps) w ! i of
              Inl e \<Rightarrow>
                \<lparr>failure_name = fst (deps ! i), failure_range = snd (deps ! i),
                 failure_reason = error_reason e\<rparr> \<in> set failures
            | Inr None \<Rightarrow>
                \<lparr>failure_name = fst (deps ! i), failure_range = snd (deps ! i),
                 failure_reason = NO_VERSION\<rparr> \<in> set failures
            | Inr (Some v) \<Rightarrow>
                if v = [] then
                  \<lparr>failure_name = fst (deps ! i), failure_range = snd (deps ! i),
                   failure_reason = NO_VERSION\<rparr> \<in> set failures
                else fst (deps ! i) \<in> fst ` set resolved)"
proof -
  define z where "z = zip deps (answers R (map (mkRequest reg c ig) deps) w)"
  from run have res: "resolved = set_all [] (List.map_filter success_of z)"
    and fs: "failures = List.map_filter failure_of z"
    and w': "w' = world_after R (map (mkRequest reg c ig) deps) w"
    by (simp_all add: resolveAll_general z_def)
  have log: "fst (snd (snd (resolveAll (logged R) reg c ig deps [] [] ([], w))))
           = map (mkRequest reg c ig) deps"
    by (simp add: resolveAll_world world_after_logged)
  have each: "case answers R (map (mkRequest reg c ig) deps) w ! i of
              Inl e \<Rightarrow>
                \<lparr>failure_name = fst (deps ! i), failure_range = snd (deps ! i),
                 failure_reason = error_reason e\<rparr> \<in> set failures
            | Inr None \<Rightarrow>
                \<lparr>failure_name = fst (deps ! i), failure_range = snd (deps ! i),
                 failure_reason = NO_VERSION\<rparr> \<in> set failures
            | Inr (Some v) \<Rightarrow>
                if v = [] then
                  \<lparr>failure_name = fst (deps ! i), failure_range = snd (deps ! i),
                   failure_reason = NO_VERSION\<rparr> \<in> set failures
                else fst (deps ! i) \<in> fst ` set resolved"
    if i: "i < length deps" for i
  proof -
    let ?a = "answers R (map (mkRequest reg c ig) deps) w ! i"
    have mem: "(deps ! i, ?a) \<in> set z"
      using i z_def by (rule entry_outcome)
    have f: "failure_of (deps ! i, ?a) = Some f \<Longrightarrow> f \<in> set failures" for f
      unfolding fs in_map_filter using mem by blast
    have s: "success_of (deps ! i, ?a) = Some (n, v) \<Longrightarrow> n \<in> fst ` set resolved" for n v
    proof -
      assume "success_of (deps ! i, ?a) = Some (n, v)"
      with mem have "(n, v) \<in> set (List.map_filter success_of z)"
        unfolding in_map_filter by blast
      then have "n \<in> fst ` set (List.map_filter success_of z)" by force
      then show ?thesis by (simp add: res keys_set_all)
    qed
    show ?thesis
    proof (cases ?a)
      case (Inl e)
      with f show ?thesis by (simp add: failure_of_entry)
    next
      case (Inr version)
      show ?thesis
      proof (cases version)
        case None
        with Inr f show ?thesis by (simp add: failure_of_entry)
      next
        case (Some v)
        with Inr f s show ?thesis by (simp add: failure_of_entry success_of_entry)
      qed
    qed
  qed
  from w' log each show ?thesis by blast
qed

lemma dependencyMap_run:
  assumes deps: "collectDependencies packages file devOnly prodOnly = Inr deps"
      and run: "resolveAll R reg c ig deps [] [] w = (resolved, failures, w')"
      and z: "z = zip deps (answers R (map (mkRequest reg c ig) deps) w)"
  shows "resolved = List.map_filter success_of z" and "failures = List.map_filter failure_of z"
    and "distinct (map fst deps)"
proof -
  show d: "distinct (map fst deps)" using deps by (rule distinct_collectDependencies)
  from resolveAll_distinct[OF d z] run
  show "resolved = List.map_filter success_of z" and "failures = List.map_filter failure_of z"
    by (simp_all add: z)
qed

text \<open>
  Claim C6. For the dependency map that the command collects, every requested name ends
  in exactly one place. No name is both in the resolved map and in the failure list, the
  two together hold exactly the requested names, and no name occurs twice in either. An
  entry resolved to a version is in the resolved map with that version and not in the
  failure list; an entry with no version has the failure record with the fixed reason,
  an entry whose resolution threw has the failure record with the reason read off the
  error (the message of an \<open>Error\<close>), and neither is in the resolved map.
\<close>

theorem resolveAll_one_outcome_per_name:
  assumes deps: "collectDependencies packages file devOnly prodOnly = Inr deps"
      and run: "resolveAll R reg c ig deps [] [] w = (resolved, failures, w')"
  shows "fst ` set resolved \<inter> failure_name ` set failures = {}
       \<and> fst ` set resolved \<union> failure_name ` set failures = fst ` set deps
       \<and> distinct (map fst resolved) \<and> distinct (map failure_name failures)
       \<and> (\<forall>i<length deps.
            case answers R (map (mkRequest reg c ig) deps) w ! i of
              Inl e \<Rightarrow>
                \<lparr>failure_name = fst (deps ! i), failure_range = snd (deps ! i),
                 failure_reason = error_reason e\<rparr> \<in> set failures
                \<and> fst (deps ! i) \<notin> fst ` set resolved
            | Inr None \<Rightarrow>
                \<lparr>failure_name = fst (deps ! i), failure_range = snd (deps ! i),
                 failure_reason = NO_VERSION\<rparr> \<in> set failures
                \<and> fst (deps ! i) \<notin> fst ` set resolved
            | Inr (Some v) \<Rightarrow>
                if v = [] then
                  \<lparr>failure_name = fst (deps ! i), failure_range = snd (deps ! i),
                   failure_reason = NO_VERSION\<rparr> \<in> set failures
                  \<and> fst (deps ! i) \<notin> fst ` set resolved
                else (fst (deps ! i), v) \<in> set resolved
                  \<and> fst (deps ! i) \<notin> failure_name ` set failures)
       \<and> (\<forall>m. error_reason (Error m) = m) \<and> error_reason NonError = ''Unknown error''"
proof -
  define z where "z = zip deps (answers R (map (mkRequest reg c ig) deps) w)"
  note r = dependencyMap_run[OF deps run z_def]
  have len: "length (answers R (map (mkRequest reg c ig) deps) w) = length deps"
    by (simp add: length_answers)
  note p = names_partition[OF r(3) len z_def]
  have disj: "fst ` set resolved \<inter> failure_name ` set failures = {}"
    using p(1) by (simp add: r)
  have each: "case answers R (map (mkRequest reg c ig) deps) w ! i of
              Inl e \<Rightarrow>
                \<lparr>failure_name = fst (deps ! i), failure_range = snd (deps ! i),
                 failure_reason = error_reason e\<rparr> \<in> set failures
                \<and> fst (deps ! i) \<notin> fst ` set resolved
            | Inr None \<Rightarrow>
                \<lparr>failure_name = fst (deps ! i), failure_range = snd (deps ! i),
                 failure_reason = NO_VERSION\<rparr> \<in> set failures
                \<and> fst (deps ! i) \<notin> fst ` set resolved
            | Inr (Some v) \<Rightarrow>
                if v = [] then
                  \<lparr>failure_name = fst (deps ! i), failure_range = snd (deps ! i),
                   failure_reason = NO_VERSION\<rparr> \<in> set failures
                  \<and> fst (deps ! i) \<notin> fst ` set resolved
                else (fst (deps ! i), v) \<in> set resolved
                  \<and> fst (deps ! i) \<notin> failure_name ` set failures"
    if i: "i < length deps" for i
  proof -
    let ?a = "answers R (map (mkRequest reg c ig) deps) w ! i"
    have mem: "(deps ! i, ?a) \<in> set z"
      using i z_def by (rule entry_outcome)
    have f: "f \<in> set failures \<and> fst (deps ! i) \<notin> fst ` set resolved"
      if "failure_of (deps ! i, ?a) = Some f" for f
    proof -
      from that mem have m: "f \<in> set failures"
        unfolding r in_map_filter by blast
      from that have "failure_name f = fst (deps ! i)"
        by (auto dest: failure_of_name)
      with m have "fst (deps ! i) \<in> failure_name ` set failures" by force
      with disj m show ?thesis by blast
    qed
    have s: "(n, v) \<in> set resolved \<and> n \<notin> failure_name ` set failures"
      if "success_of (deps ! i, ?a) = Some (n, v)" for n v
    proof -
      from that mem have m: "(n, v) \<in> set resolved"
        unfolding r in_map_filter by blast
      then have "n \<in> fst ` set resolved" by force
      with disj m show ?thesis by blast
    qed
    show ?thesis
    proof (cases ?a)
      case (Inl e)
      with f show ?thesis by (simp add: failure_of_entry)
    next
      case (Inr version)
      show ?thesis
      proof (cases version)
        case None
        with Inr f show ?thesis by (simp add: failure_of_entry)
      next
        case (Some v)
        with Inr f s show ?thesis by (simp add: failure_of_entry success_of_entry)
      qed
    qed
  qed
  have u: "fst ` set resolved \<union> failure_name ` set failures = fst ` set deps"
    using p(2) by (simp add: r)
  have d1: "distinct (map fst resolved)" using p(3) by (simp add: r)
  have d2: "distinct (map failure_name failures)" using p(4) by (simp add: r)
  have e: "(\<forall>m. error_reason (Error m) = m) \<and> error_reason NonError = ''Unknown error''"
    by (simp add: error_reason_def)
  from disj u d1 d2 each e show ?thesis by blast
qed

lemma out_report_finishInstall:
  "out_report (finishInstall spawnSync file options registry pm resolved failures w) =
     (if failures = [] then []
      else nl ''Dependencies that could not be resolved safely:'' # map failure_line failures)
     @ (if failures \<noteq> [] \<and> opt_strict options then []
        else if resolved = [] then [nl ''No dependencies qualified for installation.'']
        else nl ''Safe versions to install:''
             # map (resolved_line (opt_ignoreSet options)) resolved
             @ (if opt_dryRun options then [nl ''Dry run enabled. No changes were made.'']
                else []))"
  by (simp add: finishInstall_def Let_def)

text \<open>
  Claim C8. The resolved map and the failure list keep the order of the dependency map:
  the names of each are the names of the input, in input order, restricted to those
  that had that outcome, as one pass over the entries and their answers leaves them.
  The report prints the failure list and then the resolved map, each in its own order.
\<close>

theorem resolveAll_input_order:
  assumes deps: "collectDependencies packages file devOnly prodOnly = Inr deps"
      and run: "resolveAll R reg c ig deps [] [] w = (resolved, failures, w')"
  shows "map fst resolved = filter (\<lambda>n. n \<in> fst ` set resolved) (map fst deps)
       \<and> map failure_name failures =
           filter (\<lambda>n. n \<in> failure_name ` set failures) (map fst deps)
       \<and> resolved = List.map_filter success_of
                       (zip deps (answers R (map (mkRequest reg c ig) deps) w))
       \<and> failures = List.map_filter failure_of
                       (zip deps (answers R (map (mkRequest reg c ig) deps) w))
       \<and> out_report (finishInstall spawnSync file options registry pm resolved failures w') =
           (if failures = [] then []
            else nl ''Dependencies that could not be resolved safely:''
                 # map failure_line failures)
           @ (if failures \<noteq> [] \<and> opt_strict options then []
              else if resolved = [] then [nl ''No dependencies qualified for installation.'']
              else nl ''Safe versions to install:''
                   # map (resolved_line (opt_ignoreSet options)) resolved
                   @ (if opt_dryRun options
                      then [nl ''Dry run enabled. No changes were made.''] else []))"
proof -
  define z where "z = zip deps (answers R (map (mkRequest reg c ig) deps) w)"
  note r = dependencyMap_run[OF deps run z_def]
  have len: "length (answers R (map (mkRequest reg c ig) deps) w) = length deps"
    by (simp add: length_answers)
  have keys: "map (fst \<circ> fst) z = map fst deps"
    unfolding z_def using len by (rule map_fst_zip_answers)
  then have dz: "distinct (map (fst \<circ> fst) z)" using r(3) by simp
  have s: "fst ` set resolved = (fst \<circ> fst) ` {x \<in> set z. success_of x \<noteq> None}"
    using arg_cong[OF map_fst_successes[of z], of set] by (simp add: r)
  have f: "failure_name ` set failures = (fst \<circ> fst) ` {x \<in> set z. success_of x = None}"
    using arg_cong[OF map_name_failures[of z], of set] by (simp add: r)
  have "map fst resolved = map (fst \<circ> fst) (filter (\<lambda>x. success_of x \<noteq> None) z)"
    by (simp only: r map_fst_successes)
  also have "\<dots> = filter (\<lambda>n. n \<in> (fst \<circ> fst) ` {x \<in> set z. success_of x \<noteq> None})
                      (map (fst \<circ> fst) z)"
    using dz by (rule map_filter_distinct_keys)
  finally have 1: "map fst resolved = filter (\<lambda>n. n \<in> fst ` set resolved) (map fst deps)"
    by (simp only: s keys)
  have "map failure_name failures = map (fst \<circ> fst) (filter (\<lambda>x. success_of x = None) z)"
    by (simp only: r map_name_failures)
  also have "\<dots> = filter (\<lambda>n. n \<in> (fst \<circ> fst) ` {x \<in> set z. success_of x = None})
                      (map (fst \<circ> fst) z)"
    using dz by (rule map_filter_distinct_keys)
  finally have 2: "map failure_name failures =
                   filter (\<lambda>n. n \<in> failure_name ` set failures) (map fst deps)"
    by (simp only: f keys)
  from 1 2 r(1,2) show ?thesis
    unfolding z_def by (simp only: out_report_finishInstall simp_thms)
qed

lemma test_run_dependencies: "collectDependencies [''ghost'', ''alpha@*'', ''recent''] Missing False False =
         Inr [(''ghost'', ''latest''), (''alpha'', ''*''), (''recent'', ''latest'')]"
  by code_simp

lemma test_run_resolveAll: "resolveAll (test_resolver [(''alpha'', alpha), (''recent'', recent)]) DEFAULT_REGISTRY
          1741003200000 {} [(''ghost'', ''latest''), (''alpha'', ''*''), (''recent'', ''latest'')] [] [] () =
       ([(''alpha'', ''1.1.0'')],
        [\<lparr>failure_name = ''ghost'', failure_range = ''latest'',
          failure_reason = ''Package not found: ghost''\<rparr>,
         \<lparr>failure_name = ''recent'', failure_range = ''latest'',
          failure_reason = ''No version satisfies the range and age requirement''\<rparr>], ())"
  by code_simp

lemma test_run_answers: "answers (test_resolver [(''alpha'', alpha), (''recent'', recent)])
         (map (mkRequest DEFAULT_REGISTRY 1741003200000 {})
            [(''ghost'', ''latest''), (''alpha'', ''*''), (''recent'', ''latest'')]) () =
       [Inl (Error ''Package not found: ghost''), Inr (Some ''1.1.0''), Inr None]"
  by code_simp

lemma test_run_log: "fst (out_world (installAction (logged (test_resolver [(''alpha'', alpha), (''recent'', recent)]))
         no_spawn test_now Missing [''ghost'', ''alpha@*'', ''recent''] test_options ([], ()))) =
       [\<lparr>req_name = ''ghost'', req_range = ''latest'', req_registry = ''https://registry.npmjs.org'',
         req_cutoffDate = 1741003200000, req_ignoreAge = False\<rparr>,
        \<lparr>req_name = ''alpha'', req_range = ''*'', req_registry = ''https://registry.npmjs.org'',
         req_cutoffDate = 1741003200000, req_ignoreAge = False\<rparr>,
        \<lparr>req_name = ''recent'', req_range = ''latest'', req_registry = ''https://registry.npmjs.org'',
         req_cutoffDate = 1741003200000, req_ignoreAge = False\<rparr>]"
  by code_simp


theorem resolveAll_never_aborts_witness:
  "resolveAll (test_resolver [(''alpha'', alpha), (''recent'', recent)]) DEFAULT_REGISTRY
          1741003200000 {} [(''ghost'', ''latest''), (''alpha'', ''*''), (''recent'', ''latest'')] [] [] () =
       ([(''alpha'', ''1.1.0'')],
        [\<lparr>failure_name = ''ghost'', failure_range = ''latest'',
          failure_reason = ''Package not found: ghost''\<rparr>,
         \<lparr>failure_name = ''recent'', failure_range = ''latest'',
          failure_reason = ''No version satisfies the range and age requirement''\<rparr>], ())
   \<and> fst (snd (snd (resolveAll (logged (test_resolver [(''alpha'', alpha), (''recent'', recent)]))
          DEFAULT_REGISTRY 1741003200000 {}
          [(''ghost'', ''latest''), (''alpha'', ''*''), (''recent'', ''latest'')] [] [] ([], ()))))
       = map (mkRequest DEFAULT_REGISTRY 1741003200000 {})
           [(''ghost'', ''latest''), (''alpha'', ''*''), (''recent'', ''latest'')]
   \<and> \<lparr>failure_name = ''ghost'', failure_range = ''latest'',
       failure_reason = error_reason (Error ''Package not found: ghost'')\<rparr>
       \<in> set [\<lparr>failure_name = ''ghost'', failure_range = ''latest'',
                failure_reason = ''Package not found: ghost''\<rparr>,
               \<lparr>failure_name = ''recent'', failure_range = ''latest'',
                failure_reason = ''No version satisfies the range and age requirement''\<rparr>]
   \<and> ''alpha'' \<in> fst ` set [(''alpha'', ''1.1.0'')]
   \<and> \<lparr>failure_name = ''recent'', failure_range = ''latest'', failure_reason = NO_VERSION\<rparr>
       \<in> set [\<lparr>failure_name = ''ghost'', failure_range = ''latest'',
                failure_reason = ''Package not found: ghost''\<rparr>,
               \<lparr>failure_name = ''recent'', failure_range = ''latest'',
                failure_reason = ''No version satisfies the range and age requirement''\<rparr>]"
proof -
  note t = resolveAll_never_aborts[OF test_run_resolveAll]
  note each = t[THEN conjunct2, THEN conjunct2, rule_format, unfolded test_run_answers]
  have 0: "\<lparr>failure_name = ''ghost'', failure_range = ''latest'',
       failure_reason = error_reason (Error ''Package not found: ghost'')\<rparr>
       \<in> set [\<lparr>failure_name = ''ghost'', failure_range = ''latest'',
                failure_reason = ''Package not found: ghost''\<rparr>,
               \<lparr>failure_name = ''recent'', failure_range = ''latest'',
                failure_reason = ''No version satisfies the range and age requirement''\<rparr>]"
    using each[of 0] by simp
  have 1: "''alpha'' \<in> fst ` set [(''alpha'', ''1.1.0'')]"
    using each[of 1] by simp
  have 2: "\<lparr>failure_name = ''recent'', failure_range = ''latest'', failure_reason = NO_VERSION\<rparr>
       \<in> set [\<lparr>failure_name = ''ghost'', failure_range = ''latest'',
                failure_reason = ''Package not found: ghost''\<rparr>,
               \<lparr>failure_name = ''recent'', failure_range = ''latest'',
                failure_reason = ''No version satisfies the range and age requirement''\<rparr>]"
    using each[of 2] by simp
  from test_run_resolveAll t[THEN conjunct2, THEN conjunct1] 0 1 2 show ?thesis
    by (intro conjI)
qed

theorem resolveAll_one_outcome_per_name_witness:
  "collectDependencies [''ghost'', ''alpha@*'', ''recent''] Missing False False =
         Inr [(''ghost'', ''latest''), (''alpha'', ''*''), (''recent'', ''latest'')]
   \<and> resolveAll (test_resolver [(''alpha'', alpha), (''recent'', recent)]) DEFAULT_REGISTRY
          1741003200000 {} [(''ghost'', ''latest''), (''alpha'', ''*''), (''recent'', ''latest'')] [] [] () =
       ([(''alpha'', ''1.1.0'')],
        [\<lparr>failure_name = ''ghost'', failure_range = ''latest'',
          failure_reason = ''Package not found: ghost''\<rparr>,
         \<lparr>failure_name = ''recent'', failure_range = ''latest'',
          failure_reason = ''No version satisfies the range and age requirement''\<rparr>], ())
   \<and> fst ` set [(''alpha'', ''1.1.0'')]
       \<inter> failure_name ` set [\<lparr>failure_name = ''ghost'', failure_range = ''latest'',
                failure_reason = ''Package not found: ghost''\<rparr>,
               \<lparr>failure_name = ''recent'', failure_range = ''latest'',
                failure_reason = ''No version satisfies the range and age requirement''\<rparr>] = {}
   \<and> fst ` set [(''alpha'', ''1.1.0'')]
       \<union> failure_name ` set [\<lparr>failure_name = ''ghost'', failure_range = ''latest'',
                failure_reason = ''Package not found: ghost''\<rparr>,
               \<lparr>failure_name = ''recent'', failure_range = ''latest'',
                failure_reason = ''No version satisfies the range and age requirement''\<rparr>]
       = fst ` set [(''ghost'', ''latest''), (''alpha'', ''*''), (''recent'', ''latest'')]
   \<and> (''alpha'', ''1.1.0'') \<in> set [(''alpha'', ''1.1.0'')]
   \<and> ''alpha'' \<notin> failure_name ` set [\<lparr>failure_name = ''ghost'', failure_range = ''latest'',
                failure_reason = ''Package not found: ghost''\<rparr>,
               \<lparr>failure_name = ''recent'', failure_range = ''latest'',
                failure_reason = ''No version satisfies the range and age requirement''\<rparr>]
   \<and> ''ghost'' \<notin> fst ` set [(''alpha'', ''1.1.0'')]"
proof -
  note t = resolveAll_one_outcome_per_name[OF test_run_dependencies test_run_resolveAll]
  note each = t[THEN conjunct2, THEN conjunct2, THEN conjunct2, THEN conjunct2, THEN conjunct1,
      rule_format, unfolded test_run_answers]
  have 0: "''ghost'' \<notin> fst ` set [(''alpha'', ''1.1.0'')]"
    using each[of 0] by simp
  have 1: "(''alpha'', ''1.1.0'') \<in> set [(''alpha'', ''1.1.0'')]
           \<and> ''alpha'' \<notin> failure_name ` set [\<lparr>failure_name = ''ghost'', failure_range = ''latest'',
                failure_reason = ''Package not found: ghost''\<rparr>,
               \<lparr>failure_name = ''recent'', failure_range = ''latest'',
                failure_reason = ''No version satisfies the range and age requirement''\<rparr>]"
    using each[of 1] by simp
  from test_run_dependencies test_run_resolveAll t[THEN conjunct1]
    t[THEN conjunct2, THEN conjunct1] 0 1
  show ?thesis by (intro conjI) simp_all
qed

theorem resolveAll_input_order_witness:
  "collectDependencies [''ghost'', ''alpha@*'', ''recent''] Missing False False =
         Inr [(''ghost'', ''latest''), (''alpha'', ''*''), (''recent'', ''latest'')]
   \<and> resolveAll (test_resolver [(''alpha'', alpha), (''recent'', recent)]) DEFAULT_REGISTRY
          1741003200000 {} [(''ghost'', ''latest''), (''alpha'', ''*''), (''recent'', ''latest'')] [] [] () =
       ([(''alpha'', ''1.1.0'')],
        [\<lparr>failure_name = ''ghost'', failure_range = ''latest'',
          failure_reason = ''Package not found: ghost''\<rparr>,
         \<lparr>failure_name = ''recent'', failure_range = ''latest'',
          failure_reason = ''No version satisfies the range and age requirement''\<rparr>], ())
   \<and> map fst [(''alpha'', ''1.1.0'')] =
       filter (\<lambda>n. n \<in> fst ` set [(''alpha'', ''1.1.0'')])
         (map fst [(''ghost'', ''latest''), (''alpha'', ''*''), (''recent'', ''latest'')])
   \<and> map failure_name [\<lparr>failure_name = ''ghost'', failure_range = ''latest'',
                failure_reason = ''Package not found: ghost''\<rparr>,
               \<lparr>failure_name = ''recent'', failure_range = ''latest'',
                failure_reason = ''No version satisfies the range and age requirement''\<rparr>] =
       filter (\<lambda>n. n \<in> failure_name ` set [\<lparr>failure_name = ''ghost'', failure_range = ''latest'',
                failure_reason = ''Package not found: ghost''\<rparr>,
               \<lparr>failure_name = ''recent'', failure_range = ''latest'',
                failure_reason = ''No version satisfies the range and age requirement''\<rparr>])
         (map fst [(''ghost'', ''latest''), (''alpha'', ''*''), (''recent'', ''latest'')])"
proof -
  note t = resolveAll_input_order[OF test_run_dependencies test_run_resolveAll]
  from test_run_dependencies test_run_resolveAll t[THEN conjunct1]
    t[THEN conjunct2, THEN conjunct1]
  show ?thesis by (intro conjI)
qed

section \<open>The cutoff date\<close>

lemma bits_step: "0 < n \<Longrightarrow> bits n = 1 + bits (n div 2)"
  by (simp add: bits.simps[of n])

lemma bits_nonpos: "n \<le> 0 \<Longrightarrow> bits n = 0"
  by (simp add: bits.simps[of n])

lemma bits_bounds: "0 < n \<Longrightarrow> 1 \<le> bits n \<and> 2 ^ nat (bits n - 1) \<le> n \<and> n < 2 ^ nat (bits n)"
proof (induction n rule: bits.induct)
  case (1 n)
  show ?case
  proof (cases "n div 2 \<le> 0")
    case True
    with "1.prems" have n: "n = 1" by linarith
    have "bits 1 = 1" by (simp add: bits_step bits_nonpos)
    with n show ?thesis by simp
  next
    case False
    then have h: "0 < n div 2" by simp
    from "1.prems" have "\<not> n \<le> 0" by simp
    from "1.IH"[OF this h] have b: "1 \<le> bits (n div 2)"
      and lo: "2 ^ nat (bits (n div 2) - 1) \<le> n div 2"
      and hi: "n div 2 < 2 ^ nat (bits (n div 2))" by blast+
    let ?b = "bits (n div 2)"
    have s: "bits n = 1 + ?b" using "1.prems" by (rule bits_step)
    have e1: "nat (bits n - 1) = Suc (nat (?b - 1))" using b s by simp
    have e2: "nat (bits n) = Suc (nat ?b)" using b s by simp
    have "(2::int) ^ nat (bits n - 1) = 2 * 2 ^ nat (?b - 1)" by (simp add: e1)
    also have "\<dots> \<le> 2 * (n div 2)" using lo by simp
    also have "\<dots> \<le> n" by simp
    finally have A: "2 ^ nat (bits n - 1) \<le> n" .
    have "n < 2 * (n div 2) + 2" by linarith
    also have "\<dots> \<le> 2 * 2 ^ nat ?b" using hi by simp
    also have "\<dots> = 2 ^ nat (bits n)" by (simp add: e2)
    finally have B: "n < 2 ^ nat (bits n)" .
    from s b A B show ?thesis by simp
  qed
qed

lemma pow2_nonneg: "0 \<le> e \<Longrightarrow> pow2 e = 2 ^ nat e"
  by (simp add: pow2_def)

lemma pow2_nonpos: "e \<le> 0 \<Longrightarrow> pow2 e = 1 / 2 ^ nat (- e)"
  by (cases "e = 0") (simp_all add: pow2_def)

lemma exponent_of_int:
  assumes "0 < n"
  shows "exponent (of_int n) = bits n - 1"
proof -
  from bits_bounds[OF assms] have b: "1 \<le> bits n" and lo: "2 ^ nat (bits n - 1) \<le> n" by blast+
  have one: "bits 1 = 1" by (simp add: bits_step bits_nonpos)
  have "pow2 (bits n - 1) = of_int (2 ^ nat (bits n - 1))"
    using b by (simp add: pow2_nonneg)
  also have "\<dots> \<le> of_int n" using lo by (simp only: of_int_le_iff)
  finally have "pow2 (bits n - 1) \<le> of_int n" .
  then show ?thesis by (simp add: exponent_def one)
qed

lemma roundTiesToEven_of_int: "roundTiesToEven (of_int k) = k"
  by (simp add: roundTiesToEven_def)

lemma round_double_nat:
  assumes pos: "0 < m" and small: "m < 9007199254740992"
  shows "exponent (of_int m) \<le> 52 \<and> 0 \<le> exponent (of_int m)
       \<and> roundTiesToEven (of_int m / pow2 (exponent (of_int m) - 52)) * 1 =
           m * 2 ^ nat (52 - exponent (of_int m))"
proof -
  let ?e = "bits m - 1"
  from bits_bounds[OF pos] have b: "1 \<le> bits m" and lo: "2 ^ nat ?e \<le> m" by blast+
  have e0: "0 \<le> ?e" using b by simp
  have lt: "(2::int) ^ nat ?e < 2 ^ 53" using lo small by simp
  have "nat ?e < 53" by (rule power_less_imp_less_exp[OF _ lt]) simp
  then have e52: "?e \<le> 52" by simp
  have ex: "exponent (of_int m) = ?e" using pos by (rule exponent_of_int)
  have "of_int m / pow2 (?e - 52) = (of_int (m * 2 ^ nat (52 - ?e)) :: rat)"
    using e52 by (simp add: pow2_nonpos)
  then have "roundTiesToEven (of_int m / pow2 (?e - 52)) = m * 2 ^ nat (52 - ?e)"
    by (simp only: roundTiesToEven_of_int)
  with e0 e52 ex show ?thesis by simp
qed

lemma round_double_of_int:
  assumes "\<bar>n\<bar> < 9007199254740992"
  shows "round_double (of_int n) = Finite (of_int n)"
proof (cases "n = 0")
  case True
  then show ?thesis by (simp add: round_double_def)
next
  case False
  define x :: rat where "x = of_int n"
  define e where "e = exponent \<bar>x\<bar>"
  define k where "k = nat (52 - e)"
  have pos: "0 < \<bar>n\<bar>" using False by simp
  have ax: "\<bar>x\<bar> = of_int \<bar>n\<bar>" by (simp add: x_def)
  from round_double_nat[OF pos assms]
  have e52: "e \<le> 52" and e0: "0 \<le> e"
    and r: "roundTiesToEven (\<bar>x\<bar> / pow2 (e - 52)) = \<bar>n\<bar> * 2 ^ k"
    unfolding e_def k_def ax by simp_all
  have u: "pow2 (e - 52) = 1 / 2 ^ k" using e52 by (simp add: pow2_nonpos k_def)
  have mx: "max e (- 1022) = e" using e0 by simp
  have x0: "x \<noteq> 0" using False by (simp add: x_def)
  have "round_double x = Finite (sgn x * of_int (\<bar>n\<bar> * 2 ^ k) * pow2 (e - 52))"
    using x0 e52 by (simp add: round_double_def Let_def e_def[symmetric] mx r)
  also have "sgn x * of_int (\<bar>n\<bar> * 2 ^ k) * pow2 (e - 52) = sgn x * \<bar>x\<bar>"
    by (simp add: u ax)
  also have "\<dots> = x" by (simp add: sgn_if)
  finally show ?thesis by (simp add: x_def)
qed

lemma js_times_whole:
  "\<bar>n * c\<bar> < 9007199254740992 \<Longrightarrow>
   js_times (Finite (of_int n)) (of_int c) = Finite (of_int (n * c))"
  using round_double_of_int[of "n * c"] by (simp add: js_times_def)

lemma cutOffMs_whole_days:
  assumes "0 \<le> d" and "d * 24 * 60 * 60 * 1000 < 9007199254740992"
  shows "cutOffMs (Finite (of_int d)) = Finite (of_int (d * 24 * 60 * 60 * 1000))"
proof -
  have 1: "js_times (Finite (of_int d)) 24 = Finite (of_int (d * 24))"
    using js_times_whole[of d 24] assms by simp
  have 2: "js_times (Finite (of_int (d * 24))) 60 = Finite (of_int (d * 24 * 60))"
    using js_times_whole[of "d * 24" 60] assms by simp
  have 3: "js_times (Finite (of_int (d * 24 * 60))) 60 = Finite (of_int (d * 24 * 60 * 60))"
    using js_times_whole[of "d * 24 * 60" 60] assms by simp
  have 4: "js_times (Finite (of_int (d * 24 * 60 * 60))) 1000
           = Finite (of_int (d * 24 * 60 * 60 * 1000))"
    using js_times_whole[of "d * 24 * 60 * 60" 1000] assms by simp
  show ?thesis by (simp only: cutOffMs_def 1 2 3 4)
qed

lemma newDate_of_int:
  "newDate (Finite (of_int k)) = (if \<bar>k\<bar> > 8640000000000000 then None else Some k)"
proof -
  have "\<bar>(of_int k :: rat)\<bar> > 8640000000000000 \<longleftrightarrow> \<bar>k\<bar> > 8640000000000000"
    by (metis of_int_abs of_int_less_iff of_int_numeral)
  then show ?thesis by (simp add: newDate_def)
qed

lemma cutoffDate_whole_days:
  assumes "0 \<le> d" and "d * 24 * 60 * 60 * 1000 < 9007199254740992"
      and "0 \<le> now" and "now \<le> 8640000000000000"
  shows "cutoffDate_of now (Finite (of_int d)) =
           (if now - d * 24 * 60 * 60 * 1000 < - 8640000000000000 then None
            else Some (now - d * 24 * 60 * 60 * 1000))"
proof -
  let ?c = "d * 24 * 60 * 60 * 1000"
  have "\<bar>now - ?c\<bar> < 9007199254740992" using assms by simp
  then have "round_double (of_int (now - ?c)) = Finite (of_int (now - ?c))"
    by (rule round_double_of_int)
  then have "js_minus (of_int now) (Finite (of_int ?c)) = Finite (of_int (now - ?c))"
    by (simp add: js_minus_def)
  then have "cutoffDate_of now (Finite (of_int d)) = newDate (Finite (of_int (now - ?c)))"
    by (simp only: cutoffDate_of_def cutOffMs_whole_days[OF assms(1,2)])
  also have "\<dots> = (if \<bar>now - ?c\<bar> > 8640000000000000 then None else Some (now - ?c))"
    by (rule newDate_of_int)
  also have "\<dots> = (if now - ?c < - 8640000000000000 then None else Some (now - ?c))"
    using assms by auto
  finally show ?thesis .
qed

lemma number_of_decimal: "round_double (100001 / 10) = Finite (5497613114461389 / 549755813888)"
  by code_simp

lemma fractional_run_log:
  "fst (out_world (installAction (logged (test_resolver [(''alpha'', alpha)]))
         no_spawn test_now Missing [''alpha@*'']
         (test_options\<lparr>opt_minAgeDays := Finite (5497613114461389 / 549755813888)\<rparr>) ([], ()))) =
       [\<lparr>req_name = ''alpha'', req_range = ''*'', req_registry = ''https://registry.npmjs.org'',
         req_cutoffDate = 884770559999, req_ignoreAge = False\<rparr>]"
  by code_simp

text \<open>
  Claim C7, as stated, fails for a number of days that is not whole. \<open>--min-age-days
  10000.1\<close> is read as the double nearest to 10000.1, and with the clock at
  2025-06-01T12:00:00.000Z the request carries the cutoff 884770559999. That is neither
  the clock minus 10000.1 days, which is 884770560000, nor the clock minus the double
  times 24 hours, which is no whole number of milliseconds.
\<close>

theorem install_cutoff_date_counterexample:
  "round_double (100001 / 10) = Finite (5497613114461389 / 549755813888)
   \<and> \<lparr>req_name = ''alpha'', req_range = ''*'', req_registry = ''https://registry.npmjs.org'',
       req_cutoffDate = 884770559999, req_ignoreAge = False\<rparr>
     \<in> set (fst (out_world (installAction (logged (test_resolver [(''alpha'', alpha)]))
         no_spawn test_now Missing [''alpha@*'']
         (test_options\<lparr>opt_minAgeDays := Finite (5497613114461389 / 549755813888)\<rparr>) ([], ()))))
   \<and> (884770559999 :: rat) \<noteq> of_int test_now - (100001 / 10) * 24 * 60 * 60 * 1000
   \<and> (884770559999 :: rat)
       \<noteq> of_int test_now - (5497613114461389 / 549755813888) * 24 * 60 * 60 * 1000"
proof -
  have 2: "\<lparr>req_name = ''alpha'', req_range = ''*'', req_registry = ''https://registry.npmjs.org'',
       req_cutoffDate = 884770559999, req_ignoreAge = False\<rparr>
     \<in> set (fst (out_world (installAction (logged (test_resolver [(''alpha'', alpha)]))
         no_spawn test_now Missing [''alpha@*'']
         (test_options\<lparr>opt_minAgeDays := Finite (5497613114461389 / 549755813888)\<rparr>) ([], ()))))"
    by (simp add: fractional_run_log)
  have 3: "(884770559999 :: rat) \<noteq> of_int test_now - (100001 / 10) * 24 * 60 * 60 * 1000"
    by (simp add: test_now_def)
  have 4: "(884770559999 :: rat)
       \<noteq> of_int test_now - (5497613114461389 / 549755813888) * 24 * 60 * 60 * 1000"
    by (simp add: test_now_def)
  show ?thesis using number_of_decimal 2 3 4 by (intro conjI)
qed

text \<open>
  Claim C7, amended. Every request that the resolver receives in a run of the command
  carries the cutoff date that JavaScript computes for
  \<open>new Date(Date.now() - minAgeDays * 24 * 60 * 60 * 1000)\<close>: the product and the
  difference in double arithmetic, the result cut to a whole number of milliseconds;
  \<open>minAgeDays\<close> is the number given by \<open>--min-age-days\<close>, which is no \<open>NaN\<close> and not
  negative. For a whole number of days the cutoff is the clock minus that number of days
  times 24 hours, exactly.
\<close>

theorem install_cutoff_date:
  "(\<forall>req \<in> set (fst (out_world
        (installAction (logged R) spawnSync now file packages options ([], w)))).
       opt_minAgeDays options \<noteq> NaN \<and> \<not> js_negative (opt_minAgeDays options)
       \<and> newDate (js_minus (of_int now)
             (js_times (js_times (js_times (js_times (opt_minAgeDays options) 24) 60) 60) 1000))
           = Some (req_cutoffDate req))
   \<and> (\<forall>d. opt_minAgeDays options = Finite (of_int d)
          \<and> d * 24 * 60 * 60 * 1000 < 9007199254740992
          \<and> 0 \<le> now \<and> now \<le> 8640000000000000 \<longrightarrow>
        (\<forall>req \<in> set (fst (out_world
            (installAction (logged R) spawnSync now file packages options ([], w)))).
           0 \<le> d \<and> req_cutoffDate req = now - d * 24 * 60 * 60 * 1000))"
proof -
  let ?log = "fst (out_world (installAction (logged R) spawnSync now file packages options ([], w)))"
  have each: "opt_minAgeDays options \<noteq> NaN \<and> \<not> js_negative (opt_minAgeDays options)
       \<and> cutoffDate_of now (opt_minAgeDays options) = Some (req_cutoffDate req)"
    if "req \<in> set ?log" for req
  proof -
    from installAction_log[OF that] obtain deps cutoff e where
      n: "opt_minAgeDays options \<noteq> NaN" "\<not> js_negative (opt_minAgeDays options)"
      and c: "cutoffDate_of now (opt_minAgeDays options) = Some cutoff"
      and r: "req = mkRequest (or_else (opt_registry options) DEFAULT_REGISTRY) cutoff
                      (opt_ignoreSet options) e"
      by blast
    from r have "req_cutoffDate req = cutoff"
      by (cases e) (simp add: mkRequest_def)
    with n c show ?thesis by simp
  qed
  have 1: "\<forall>req \<in> set ?log.
       opt_minAgeDays options \<noteq> NaN \<and> \<not> js_negative (opt_minAgeDays options)
       \<and> newDate (js_minus (of_int now)
             (js_times (js_times (js_times (js_times (opt_minAgeDays options) 24) 60) 60) 1000))
           = Some (req_cutoffDate req)"
    using each by (simp add: cutoffDate_of_def cutOffMs_def)
  have 2: "\<forall>d. opt_minAgeDays options = Finite (of_int d)
          \<and> d * 24 * 60 * 60 * 1000 < 9007199254740992
          \<and> 0 \<le> now \<and> now \<le> 8640000000000000 \<longrightarrow>
        (\<forall>req \<in> set ?log. 0 \<le> d \<and> req_cutoffDate req = now - d * 24 * 60 * 60 * 1000)"
  proof (intro allI impI ballI)
    fix d req
    assume a: "opt_minAgeDays options = Finite (of_int d)
          \<and> d * 24 * 60 * 60 * 1000 < 9007199254740992
          \<and> 0 \<le> now \<and> now \<le> 8640000000000000"
      and m: "req \<in> set ?log"
    from each[OF m] a have neg: "\<not> js_negative (Finite (of_int d))"
      and c: "cutoffDate_of now (Finite (of_int d)) = Some (req_cutoffDate req)" by simp_all
    from neg have d0: "0 \<le> d" by (simp add: js_negative_def)
    from a have b: "d * 24 * 60 * 60 * 1000 < 9007199254740992" "0 \<le> now"
      "now \<le> 8640000000000000" by simp_all
    from c cutoffDate_whole_days[OF d0 b]
    have "req_cutoffDate req = now - d * 24 * 60 * 60 * 1000"
      by (simp split: if_splits)
    with d0 show "0 \<le> d \<and> req_cutoffDate req = now - d * 24 * 60 * 60 * 1000" by simp
  qed
  show ?thesis using 1 2 by (intro conjI)
qed

theorem install_cutoff_date_witness:
  "\<lparr>req_name = ''alpha'', req_range = ''*'', req_registry = ''https://registry.npmjs.org'',
     req_cutoffDate = 1741003200000, req_ignoreAge = False\<rparr>
     \<in> set (fst (out_world (installAction
          (logged (test_resolver [(''alpha'', alpha), (''recent'', recent)]))
          no_spawn test_now Missing [''ghost'', ''alpha@*'', ''recent''] test_options ([], ()))))
   \<and> opt_minAgeDays test_options = Finite (of_int 90)
   \<and> (90::int) * 24 * 60 * 60 * 1000 < 9007199254740992
   \<and> 0 \<le> test_now \<and> test_now \<le> 8640000000000000
   \<and> (1741003200000 :: int) = test_now - 90 * 24 * 60 * 60 * 1000
   \<and> newDate (js_minus (of_int test_now)
        (js_times (js_times (js_times (js_times (opt_minAgeDays test_options) 24) 60) 60) 1000))
      = Some 1741003200000"
proof -
  let ?r = "\<lparr>req_name = ''alpha'', req_range = ''*'', req_registry = ''https://registry.npmjs.org'',
     req_cutoffDate = 1741003200000, req_ignoreAge = False\<rparr>"
  have h: "?r \<in> set (fst (out_world (installAction
          (logged (test_resolver [(''alpha'', alpha), (''recent'', recent)]))
          no_spawn test_now Missing [''ghost'', ''alpha@*'', ''recent''] test_options ([], ()))))"
    by (simp add: test_run_log)
  have o: "opt_minAgeDays test_options = Finite (of_int 90)" by (simp add: test_options_def)
  have b: "(90::int) * 24 * 60 * 60 * 1000 < 9007199254740992" by simp
  have n: "0 \<le> test_now" "test_now \<le> 8640000000000000" by (simp_all add: test_now_def)
  note t = install_cutoff_date[of "test_resolver [(''alpha'', alpha), (''recent'', recent)]"
      no_spawn test_now Missing "[''ghost'', ''alpha@*'', ''recent'']" test_options "()"]
  from t[THEN conjunct1, rule_format, OF h]
  have 1: "newDate (js_minus (of_int test_now)
        (js_times (js_times (js_times (js_times (opt_minAgeDays test_options) 24) 60) 60) 1000))
      = Some 1741003200000" by simp
  from o b n have pre: "opt_minAgeDays test_options = Finite (of_int 90)
          \<and> 90 * 24 * 60 * 60 * 1000 < (9007199254740992::int)
          \<and> 0 \<le> test_now \<and> test_now \<le> 8640000000000000" by simp
  from t[THEN conjunct2, rule_format, OF pre h]
  have 2: "(1741003200000 :: int) = test_now - 90 * 24 * 60 * 60 * 1000" by simp
  show ?thesis using h o b n 2 1 by (intro conjI)
qed


section \<open>The version resolver\<close>

lemma highest_None: "highest prec vs = None \<longleftrightarrow> vs = []"
  by (induction vs) (auto split: option.splits)

lemma highest_mem: "highest prec vs = Some v \<Longrightarrow> v \<in> set vs"
  by (induction vs arbitrary: v) (auto split: option.splits if_splits)

lemma highest_max: "highest prec vs = Some v \<Longrightarrow> u \<in> set vs \<Longrightarrow> prec u \<le> prec v"
proof (induction vs arbitrary: v)
  case Nil
  then show ?case by simp
next
  case (Cons x xs)
  show ?case
  proof (cases "highest prec xs")
    case None
    then have "xs = []" by (simp add: highest_None)
    with Cons.prems None show ?thesis by simp
  next
    case (Some m)
    note ih = Cons.IH[OF Some]
    show ?thesis
    proof (cases "prec x < prec m")
      case True
      with Cons.prems Some have v: "v = m" by simp
      from Cons.prems(2) consider "u = x" | "u \<in> set xs" by auto
      then show ?thesis
      proof cases
        case 1
        with True v show ?thesis by simp
      next
        case 2
        with ih v show ?thesis by simp
      qed
    next
      case False
      with Cons.prems Some have v: "v = x" by simp
      from Cons.prems(2) consider "u = x" | "u \<in> set xs" by auto
      then show ?thesis
      proof cases
        case 1
        with v show ?thesis by simp
      next
        case 2
        from ih[OF 2] False v show ?thesis by simp
      qed
    qed
  qed
qed

lemma qualifying_iff:
  "range' \<noteq> ''latest'' \<Longrightarrow>
   v \<in> set (qualifying satisfies parseDate meta range' cutoffDate ignoreAge) \<longleftrightarrow>
     v \<in> set (meta_versions meta) \<and> v \<noteq> ''created'' \<and> v \<noteq> ''modified''
     \<and> satisfies v range' \<and> (ignoreAge \<or> oldEnough parseDate meta cutoffDate v)"
  by (auto simp: qualifying_def inRange_def candidates_def)

lemma oldEnough_iff:
  "oldEnough parseDate meta cutoffDate v \<longleftrightarrow>
     (\<exists>t ms. meta_publishTimes meta v = Some t \<and> parseDate t = Some ms \<and> ms < cutoffDate)"
  by (auto simp: oldEnough_def split: option.splits)

lemma qualifying_age:
  "v \<in> set (qualifying satisfies parseDate meta range' cutoffDate False) \<Longrightarrow>
   oldEnough parseDate meta cutoffDate v"
  by (simp add: qualifying_def)

lemma qualifying_ignoreAge:
  "qualifying satisfies parseDate meta range' cutoffDate True = inRange satisfies meta range'"
  by (simp add: qualifying_def)

lemma resolveSafeVersion_returns:
  "fetchMetadata (req_name request) (req_registry request) w = (Inr meta, w') \<Longrightarrow>
   resolveSafeVersion satisfies prec parseDate fetchMetadata request w =
     (Inr (selectVersion satisfies prec parseDate meta (req_range request)
             (req_cutoffDate request) (req_ignoreAge request)), w')"
  by (simp add: resolveSafeVersion_def)


lemma inRange_publishTimes:
  "inRange satisfies (meta\<lparr>meta_publishTimes := ts\<rparr>) range' = inRange satisfies meta range'"
proof -
  have "candidates (meta\<lparr>meta_publishTimes := ts\<rparr>) = candidates meta"
    by (simp add: candidates_def)
  then show ?thesis by (simp add: inRange_def split: option.splits)
qed

lemma scenario_alpha_star:
  "selectVersion semver_satisfies semver_prec parseIso alpha ''*'' (test_now - 90 * DAY_IN_MS) False
     = Some ''1.1.0''"
  by code_simp

lemma scenario_alpha_star_cli:
  "out_resolved (installAction (test_resolver [(''alpha'', alpha)]) no_spawn test_now Missing
     [''alpha@*''] test_options ()) = [(''alpha'', ''1.1.0'')]"
  by code_simp

text \<open>
  Claim C1. Resolution returns the highest of the qualifying versions: it returns none
  exactly when no version qualifies, the version it returns qualifies and no qualifying
  version has a higher precedence, so of two qualifying versions the lower one is never
  returned. For a range other than \<open>latest\<close> the qualifying versions are the keys of
  \<open>versions\<close>, pseudo-keys apart, that satisfy the range and, unless the age is ignored,
  are old enough. For \<open>alpha\<close> with 1.0.0 (400 days old), 1.1.0 (150 days) and 1.2.0 (20
  days) and a minimum age of 90 days, the range \<open>*\<close> resolves to 1.1.0, in the resolver
  and in a run of the command.
\<close>

theorem selectVersion_highest:
  "(selectVersion satisfies prec parseDate meta range' cutoffDate ignoreAge = None
      \<longleftrightarrow> qualifying satisfies parseDate meta range' cutoffDate ignoreAge = [])
   \<and> (\<forall>v. selectVersion satisfies prec parseDate meta range' cutoffDate ignoreAge = Some v \<longrightarrow>
          v \<in> set (qualifying satisfies parseDate meta range' cutoffDate ignoreAge)
          \<and> (\<forall>u \<in> set (qualifying satisfies parseDate meta range' cutoffDate ignoreAge).
                prec u \<le> prec v))
   \<and> (\<forall>v1 v2. v1 \<in> set (qualifying satisfies parseDate meta range' cutoffDate ignoreAge)
          \<and> v2 \<in> set (qualifying satisfies parseDate meta range' cutoffDate ignoreAge)
          \<and> prec v1 < prec v2 \<longrightarrow>
          selectVersion satisfies prec parseDate meta range' cutoffDate ignoreAge \<noteq> Some v1)
   \<and> (\<forall>v. range' \<noteq> ''latest'' \<longrightarrow>
          (v \<in> set (qualifying satisfies parseDate meta range' cutoffDate ignoreAge) \<longleftrightarrow>
             v \<in> set (meta_versions meta) \<and> v \<noteq> ''created'' \<and> v \<noteq> ''modified''
             \<and> satisfies v range' \<and> (ignoreAge \<or> oldEnough parseDate meta cutoffDate v)))
   \<and> selectVersion semver_satisfies semver_prec parseIso alpha ''*''
        (test_now - 90 * DAY_IN_MS) False = Some ''1.1.0''
   \<and> out_resolved (installAction (test_resolver [(''alpha'', alpha)]) no_spawn test_now Missing
        [''alpha@*''] test_options ()) = [(''alpha'', ''1.1.0'')]"
proof -
  let ?Q = "qualifying satisfies parseDate meta range' cutoffDate ignoreAge"
  let ?s = "selectVersion satisfies prec parseDate meta range' cutoffDate ignoreAge"
  have s: "?s = highest prec ?Q" by (simp add: selectVersion_def)
  have 1: "?s = None \<longleftrightarrow> ?Q = []" by (simp add: s highest_None)
  have 2: "v \<in> set ?Q \<and> (\<forall>u \<in> set ?Q. prec u \<le> prec v)" if "?s = Some v" for v
    using that highest_mem[of prec ?Q v] highest_max[of prec ?Q v] by (simp add: s)
  have 3: "?s \<noteq> Some v1" if "v1 \<in> set ?Q \<and> v2 \<in> set ?Q \<and> prec v1 < prec v2" for v1 v2
  proof
    assume "?s = Some v1"
    from 2[OF this] that have "prec v2 \<le> prec v1" by blast
    moreover from that have "prec v1 < prec v2" by simp
    ultimately show False by simp
  qed
  have 4: "v \<in> set ?Q \<longleftrightarrow>
             v \<in> set (meta_versions meta) \<and> v \<noteq> ''created'' \<and> v \<noteq> ''modified''
             \<and> satisfies v range' \<and> (ignoreAge \<or> oldEnough parseDate meta cutoffDate v)"
    if "range' \<noteq> ''latest''" for v
    using that by (rule qualifying_iff)
  from 1 2 3 4 scenario_alpha_star scenario_alpha_star_cli show ?thesis
    by (intro conjI allI impI) blast+
qed

lemma scenario_alpha_qualifying:
  "''1.0.0'' \<in> set (qualifying semver_satisfies parseIso alpha ''*'' (test_now - 90 * DAY_IN_MS) False)"
  by code_simp

theorem selectVersion_highest_witness:
  "selectVersion semver_satisfies semver_prec parseIso alpha ''*''
        (test_now - 90 * DAY_IN_MS) False = Some ''1.1.0''
   \<and> ''1.0.0'' \<in> set (qualifying semver_satisfies parseIso alpha ''*''
                         (test_now - 90 * DAY_IN_MS) False)
   \<and> ''1.1.0'' \<in> set (qualifying semver_satisfies parseIso alpha ''*''
                         (test_now - 90 * DAY_IN_MS) False)
   \<and> semver_prec ''1.0.0'' \<le> semver_prec ''1.1.0''"
proof -
  note t = selectVersion_highest[of semver_satisfies semver_prec parseIso alpha "''*''"
      "test_now - 90 * DAY_IN_MS" False]
  note sel = t[THEN conjunct2, THEN conjunct1, rule_format, OF scenario_alpha_star]
  from sel scenario_alpha_qualifying
  have "semver_prec ''1.0.0'' \<le> semver_prec ''1.1.0''" by blast
  with sel scenario_alpha_star scenario_alpha_qualifying show ?thesis by blast
qed

lemma scenario_gamma:
  "selectVersion semver_satisfies semver_prec parseIso gamma ''*'' (test_now - 90 * DAY_IN_MS) False
     = Some ''1.0.0''"
  by code_simp

lemma scenario_recent_strict:
  "out_exit (installAction (test_resolver [(''recent'', recent)]) no_spawn test_now Missing
      [''recent''] (test_options\<lparr>opt_strict := True\<rparr>) ()) = 1"
  by code_simp

text \<open>
  Claim C2. With the age filter active, a version is returned only if it has a publish
  time, the time parses, and it is strictly earlier than the cutoff; so a version whose
  time is missing, does not parse, or is at or after the cutoff is never returned. Such a
  version is left out and nothing is thrown: whenever the metadata is fetched, the
  resolver returns. For \<open>gamma\<close>, whose two newest versions have no usable time, the
  oldest version is returned; for \<open>recent\<close>, whose versions are all too young, the
  command in strict mode exits with status 1.
\<close>

theorem age_filter_strict:
  "(\<forall>v. selectVersion satisfies prec parseDate meta range' cutoffDate False = Some v \<longrightarrow>
        (\<exists>t ms. meta_publishTimes meta v = Some t \<and> parseDate t = Some ms \<and> ms < cutoffDate))
   \<and> (\<forall>v. v \<in> set (qualifying satisfies parseDate meta range' cutoffDate False) \<longleftrightarrow>
          v \<in> set (inRange satisfies meta range')
          \<and> (\<exists>t ms. meta_publishTimes meta v = Some t \<and> parseDate t = Some ms
                \<and> ms < cutoffDate))
   \<and> (\<forall>v. meta_publishTimes meta v = None \<longrightarrow>
          selectVersion satisfies prec parseDate meta range' cutoffDate False \<noteq> Some v)
   \<and> (\<forall>v t. meta_publishTimes meta v = Some t \<and> parseDate t = None \<longrightarrow>
          selectVersion satisfies prec parseDate meta range' cutoffDate False \<noteq> Some v)
   \<and> (\<forall>v t ms. meta_publishTimes meta v = Some t \<and> parseDate t = Some ms \<and> cutoffDate \<le> ms \<longrightarrow>
          selectVersion satisfies prec parseDate meta range' cutoffDate False \<noteq> Some v)
   \<and> (\<forall>fetchMetadata request w w'.
          fetchMetadata (req_name request) (req_registry request) w = (Inr meta, w') \<longrightarrow>
          (\<exists>r. resolveSafeVersion satisfies prec parseDate fetchMetadata request w = (Inr r, w')))
   \<and> selectVersion semver_satisfies semver_prec parseIso gamma ''*''
        (test_now - 90 * DAY_IN_MS) False = Some ''1.0.0''
   \<and> out_exit (installAction (test_resolver [(''recent'', recent)]) no_spawn test_now Missing
        [''recent''] (test_options\<lparr>opt_strict := True\<rparr>) ()) = 1"
proof -
  let ?Q = "qualifying satisfies parseDate meta range' cutoffDate False"
  let ?s = "selectVersion satisfies prec parseDate meta range' cutoffDate False"
  have q: "\<forall>v. v \<in> set ?Q \<longleftrightarrow>
          v \<in> set (inRange satisfies meta range')
          \<and> (\<exists>t ms. meta_publishTimes meta v = Some t \<and> parseDate t = Some ms
                \<and> ms < cutoffDate)"
    by (simp add: qualifying_def oldEnough_iff)
  have m: "v \<in> set ?Q" if "?s = Some v" for v
    using that by (simp add: selectVersion_def highest_mem)
  have old: "\<exists>t ms. meta_publishTimes meta v = Some t \<and> parseDate t = Some ms \<and> ms < cutoffDate"
    if "?s = Some v" for v
    using m[OF that] q by blast
  have 1: "\<forall>v. ?s = Some v \<longrightarrow>
        (\<exists>t ms. meta_publishTimes meta v = Some t \<and> parseDate t = Some ms \<and> ms < cutoffDate)"
    using old by blast
  have 3: "\<forall>v. meta_publishTimes meta v = None \<longrightarrow> ?s \<noteq> Some v"
  proof (intro allI impI notI)
    fix v assume "meta_publishTimes meta v = None" and "?s = Some v"
    with old[of v] show False by simp
  qed
  have 4: "\<forall>v t. meta_publishTimes meta v = Some t \<and> parseDate t = None \<longrightarrow> ?s \<noteq> Some v"
  proof (intro allI impI notI)
    fix v t assume "meta_publishTimes meta v = Some t \<and> parseDate t = None" and "?s = Some v"
    with old[of v] show False by auto
  qed
  have 5: "\<forall>v t ms. meta_publishTimes meta v = Some t \<and> parseDate t = Some ms \<and> cutoffDate \<le> ms
             \<longrightarrow> ?s \<noteq> Some v"
  proof (intro allI impI notI)
    fix v t ms
    assume "meta_publishTimes meta v = Some t \<and> parseDate t = Some ms \<and> cutoffDate \<le> ms"
      and "?s = Some v"
    with old[of v] show False by auto
  qed
  have 6: "\<forall>fetchMetadata request w w'.
          fetchMetadata (req_name request) (req_registry request) w = (Inr meta, w') \<longrightarrow>
          (\<exists>r. resolveSafeVersion satisfies prec parseDate fetchMetadata request w = (Inr r, w'))"
    by (simp add: resolveSafeVersion_def)
  show ?thesis
    using 1 q 3 4 5 6 scenario_gamma scenario_recent_strict by (intro conjI)
qed

theorem age_filter_strict_witness:
  "selectVersion semver_satisfies semver_prec parseIso gamma ''*''
        (test_now - 90 * DAY_IN_MS) False = Some ''1.0.0''
   \<and> (\<exists>t ms. meta_publishTimes gamma ''1.0.0'' = Some t \<and> parseIso t = Some ms
         \<and> ms < test_now - 90 * DAY_IN_MS)
   \<and> meta_publishTimes gamma ''1.1.0'' = None
   \<and> selectVersion semver_satisfies semver_prec parseIso gamma ''*''
        (test_now - 90 * DAY_IN_MS) False \<noteq> Some ''1.1.0''
   \<and> meta_publishTimes gamma ''1.2.0'' = Some ''last spring'' \<and> parseIso ''last spring'' = None
   \<and> selectVersion semver_satisfies semver_prec parseIso gamma ''*''
        (test_now - 90 * DAY_IN_MS) False \<noteq> Some ''1.2.0''"
proof -
  note t = age_filter_strict[of semver_satisfies semver_prec parseIso gamma "''*''"
      "test_now - 90 * DAY_IN_MS"]
  have a: "meta_publishTimes gamma ''1.1.0'' = None" by (simp add: gamma_def)
  have b: "meta_publishTimes gamma ''1.2.0'' = Some ''last spring'' \<and> parseIso ''last spring'' = None"
    by (simp add: gamma_def parseIso_def)
  note 1 = t[THEN conjunct1, rule_format, OF scenario_gamma]
  note 3 = t[THEN conjunct2, THEN conjunct2, THEN conjunct1, rule_format, OF a]
  note 4 = t[THEN conjunct2, THEN conjunct2, THEN conjunct2, THEN conjunct1, rule_format, OF b]
  from 1 have one: "\<exists>t ms. meta_publishTimes gamma ''1.0.0'' = Some t \<and> parseIso t = Some ms
         \<and> ms < test_now - 90 * DAY_IN_MS" .
  from b have b1: "meta_publishTimes gamma ''1.2.0'' = Some ''last spring''"
    and b2: "parseIso ''last spring'' = None" by blast+
  show ?thesis
    using scenario_gamma one a 3 b1 b2 4 by (intro conjI)
qed

lemma scenario_beta_ignored:
  "selectVersion semver_satisfies semver_prec parseIso beta_old ''^2.0.0'' cutoff True = Some ''2.0.0''"
proof -
  have "highest semver_prec (inRange semver_satisfies beta_old ''^2.0.0'') = Some ''2.0.0''"
    by code_simp
  then show ?thesis by (simp add: selectVersion_def qualifying_ignoreAge)
qed

lemma scenario_ignore_list:
  "out_report (installAction (test_resolver [(''alpha'', alpha_young), (''beta'', beta_old)])
      no_spawn test_now (Parsed test_package_json) []
      (test_options\<lparr>opt_ignoreSet := {''alpha''}\<rparr>) ()) =
     [nl ''Safe versions to install:'', ''  beta@2.0.0'', ''  alpha@1.1.0 (ignored)'',
      nl ''Dry run enabled. No changes were made.'']"
  by code_simp

lemma scenario_ignore_list_log:
  "fst (out_world (installAction
      (logged (test_resolver [(''alpha'', alpha_young), (''beta'', beta_old)]))
      no_spawn test_now (Parsed test_package_json) []
      (test_options\<lparr>opt_ignoreSet := {''alpha''}\<rparr>) ([], ()))) =
     [\<lparr>req_name = ''beta'', req_range = ''^2.0.0'', req_registry = ''https://registry.npmjs.org'',
       req_cutoffDate = 1741003200000, req_ignoreAge = False\<rparr>,
      \<lparr>req_name = ''alpha'', req_range = ''latest'', req_registry = ''https://registry.npmjs.org'',
       req_cutoffDate = 1741003200000, req_ignoreAge = True\<rparr>]"
  by code_simp

text \<open>
  Claim C3. In a run of the command, the request for a name carries \<open>ignoreAge\<close>
  exactly when the name is in the ignore set. With \<open>ignoreAge\<close> the age filter is
  skipped: the qualifying versions are all the versions in the range, and the result is
  the highest of them whatever the cutoff date, the publish times and the date parser
  are. For \<open>beta\<close> with 2.0.0 only, the range \<open>^2.0.0\<close> resolves to 2.0.0 with any cutoff;
  and the run of the third integration test, with \<open>alpha\<close> ignored, reports
  \<open>alpha@1.1.0 (ignored)\<close> and \<open>beta@2.0.0\<close>.
\<close>

theorem ignore_set_bypasses_age:
  "(\<forall>req \<in> set (fst (out_world
        (installAction (logged R) spawnSync now file packages options ([], w)))).
       req_ignoreAge req = (req_name req \<in> opt_ignoreSet options))
   \<and> qualifying satisfies parseDate meta range' cutoffDate True = inRange satisfies meta range'
   \<and> selectVersion satisfies prec parseDate meta range' cutoffDate True
       = highest prec (inRange satisfies meta range')
   \<and> (\<forall>cutoff' parseDate' ts.
         selectVersion satisfies prec parseDate' (meta\<lparr>meta_publishTimes := ts\<rparr>) range'
           cutoff' True
         = selectVersion satisfies prec parseDate meta range' cutoffDate True)
   \<and> (\<forall>cutoff. selectVersion semver_satisfies semver_prec parseIso beta_old ''^2.0.0''
                  cutoff True = Some ''2.0.0'')
   \<and> out_report (installAction (test_resolver [(''alpha'', alpha_young), (''beta'', beta_old)])
        no_spawn test_now (Parsed test_package_json) []
        (test_options\<lparr>opt_ignoreSet := {''alpha''}\<rparr>) ()) =
       [nl ''Safe versions to install:'', ''  beta@2.0.0'', ''  alpha@1.1.0 (ignored)'',
        nl ''Dry run enabled. No changes were made.'']"
proof -
  have 1: "\<forall>req \<in> set (fst (out_world
        (installAction (logged R) spawnSync now file packages options ([], w)))).
       req_ignoreAge req = (req_name req \<in> opt_ignoreSet options)"
  proof
    fix req
    assume "req \<in> set (fst (out_world
        (installAction (logged R) spawnSync now file packages options ([], w))))"
    from installAction_log[OF this] obtain cutoff e where
      "req = mkRequest (or_else (opt_registry options) DEFAULT_REGISTRY) cutoff
               (opt_ignoreSet options) e"
      by blast
    then show "req_ignoreAge req = (req_name req \<in> opt_ignoreSet options)"
      by (cases e) (simp add: mkRequest_def)
  qed
  have 2: "qualifying satisfies parseDate meta range' cutoffDate True = inRange satisfies meta range'"
    by (rule qualifying_ignoreAge)
  have 3: "selectVersion satisfies prec parseDate meta range' cutoffDate True
       = highest prec (inRange satisfies meta range')"
    by (simp add: selectVersion_def qualifying_ignoreAge)
  have 4: "\<forall>cutoff' parseDate' ts.
         selectVersion satisfies prec parseDate' (meta\<lparr>meta_publishTimes := ts\<rparr>) range'
           cutoff' True
         = selectVersion satisfies prec parseDate meta range' cutoffDate True"
    by (simp add: selectVersion_def qualifying_ignoreAge inRange_publishTimes)
  have 5: "\<forall>cutoff. selectVersion semver_satisfies semver_prec parseIso beta_old ''^2.0.0''
                  cutoff True = Some ''2.0.0''"
    by (simp add: scenario_beta_ignored)
  show ?thesis
    using 1 2 3 4 5 scenario_ignore_list by (intro conjI)
qed

theorem ignore_set_bypasses_age_witness:
  "\<lparr>req_name = ''alpha'', req_range = ''latest'', req_registry = ''https://registry.npmjs.org'',
     req_cutoffDate = 1741003200000, req_ignoreAge = True\<rparr>
     \<in> set (fst (out_world (installAction
          (logged (test_resolver [(''alpha'', alpha_young), (''beta'', beta_old)]))
          no_spawn test_now (Parsed test_package_json) []
          (test_options\<lparr>opt_ignoreSet := {''alpha''}\<rparr>) ([], ()))))
   \<and> True = (''alpha'' \<in> opt_ignoreSet (test_options\<lparr>opt_ignoreSet := {''alpha''}\<rparr>))
   \<and> \<lparr>req_name = ''beta'', req_range = ''^2.0.0'', req_registry = ''https://registry.npmjs.org'',
       req_cutoffDate = 1741003200000, req_ignoreAge = False\<rparr>
     \<in> set (fst (out_world (installAction
          (logged (test_resolver [(''alpha'', alpha_young), (''beta'', beta_old)]))
          no_spawn test_now (Parsed test_package_json) []
          (test_options\<lparr>opt_ignoreSet := {''alpha''}\<rparr>) ([], ()))))
   \<and> False = (''beta'' \<in> opt_ignoreSet (test_options\<lparr>opt_ignoreSet := {''alpha''}\<rparr>))"
proof -
  let ?log = "fst (out_world (installAction
          (logged (test_resolver [(''alpha'', alpha_young), (''beta'', beta_old)]))
          no_spawn test_now (Parsed test_package_json) []
          (test_options\<lparr>opt_ignoreSet := {''alpha''}\<rparr>) ([], ())))"
  let ?ra = "\<lparr>req_name = ''alpha'', req_range = ''latest'',
              req_registry = ''https://registry.npmjs.org'',
              req_cutoffDate = 1741003200000, req_ignoreAge = True\<rparr>"
  let ?rb = "\<lparr>req_name = ''beta'', req_range = ''^2.0.0'',
              req_registry = ''https://registry.npmjs.org'',
              req_cutoffDate = 1741003200000, req_ignoreAge = False\<rparr>"
  have a: "?ra \<in> set ?log" by (simp add: scenario_ignore_list_log)
  have b: "?rb \<in> set ?log" by (simp add: scenario_ignore_list_log)
  note t = ignore_set_bypasses_age[THEN conjunct1, rule_format,
      of _ "test_resolver [(''alpha'', alpha_young), (''beta'', beta_old)]" no_spawn test_now
        "Parsed test_package_json" "[]" "test_options\<lparr>opt_ignoreSet := {''alpha''}\<rparr>" "()"]
  from t[OF a] have ta: "True = (''alpha'' \<in> opt_ignoreSet (test_options\<lparr>opt_ignoreSet := {''alpha''}\<rparr>))"
    by simp
  from t[OF b] have tb: "False = (''beta'' \<in> opt_ignoreSet (test_options\<lparr>opt_ignoreSet := {''alpha''}\<rparr>))"
    by simp
  show ?thesis using a ta b tb by (intro conjI)
qed










text \<open>
  The spec \<open>alpha\<close> of the first integration test has the range \<open>latest\<close> too, and there
  the tagged version 1.2.0 is too young while 1.1.0 is old enough. With the resolver as
  the specification describes it the request ends in the failure list; the test expects
  \<open>alpha@1.1.0\<close> in the report. The amended claim says nothing of that case.
\<close>

lemma scenario_alpha_latest_cli:
  "out_failures (installAction (test_resolver [(''alpha'', alpha)]) no_spawn test_now Missing
     [''alpha''] test_options ()) =
     [\<lparr>failure_name = ''alpha'', failure_range = ''latest'', failure_reason = NO_VERSION\<rparr>]"
  by code_simp

section \<open>The overrides strategy\<close>

lemma map_of_merged:
  "k \<notin> fst ` set resolved \<Longrightarrow>
   map_of (set_all old (set_all [] resolved)) k = map_of old k"
proof -
  assume "k \<notin> fst ` set resolved"
  then have "k \<notin> fst ` set (set_all [] resolved)" by (simp add: keys_set_all)
  then show ?thesis by (rule map_of_set_all_other)
qed

lemma keys_merged:
  "fst ` set (set_all old (set_all [] resolved)) = fst ` set old \<union> fst ` set resolved"
  by (simp add: keys_set_all)

lemma written_npm:
  "sr_written (runStrategy spawnSync (Parsed pkg) ''overrides'' resolved registry Npm) =
     Some (pkg\<lparr>overrides := Some (set_all (or_empty (overrides pkg)) (set_all [] resolved))\<rparr>)"
  by (simp add: runStrategy_def Let_def)

lemma written_pnpm:
  "sr_written (runStrategy spawnSync (Parsed pkg) ''overrides'' resolved registry Pnpm) =
     Some (pkg\<lparr>pnpm := Some ((old_pnpm pkg)\<lparr>pnpm_overrides :=
        Some (set_all (or_empty (pnpm_overrides (old_pnpm pkg))) (set_all [] resolved))\<rparr>)\<rparr>)"
  by (simp add: runStrategy_def Let_def old_pnpm_def)

text \<open>
  Claim C10. The overrides strategy rewrites \<open>package.json\<close> so that, for every name that
  is not in the resolved map, the entry of \<open>overrides\<close> (npm) or of \<open>pnpm.overrides\<close>
  (pnpm) is what it was, present or absent; the names of the new table are the old names
  and the resolved names. With npm the \<open>pnpm\<close> field is untouched; with pnpm the other
  \<open>pnpm\<close> settings and the top-level \<open>overrides\<close> are untouched; the dependencies and
  the remaining fields are untouched by both.
\<close>

theorem overrides_strategy_frame:
  assumes w: "sr_written (runStrategy spawnSync (Parsed pkg) ''overrides'' resolved registry pm)
              = Some pkg'"
      and k: "k \<notin> fst ` set resolved"
  shows "(pm = Npm \<longrightarrow>
            map_of (or_empty (overrides pkg')) k = map_of (or_empty (overrides pkg)) k
            \<and> fst ` set (or_empty (overrides pkg'))
                = fst ` set (or_empty (overrides pkg)) \<union> fst ` set resolved
            \<and> pnpm pkg' = pnpm pkg)
       \<and> (pm = Pnpm \<longrightarrow>
            (\<exists>c'. pnpm pkg' = Some c'
               \<and> map_of (or_empty (pnpm_overrides c')) k
                   = map_of (or_empty (pnpm_overrides (old_pnpm pkg))) k
               \<and> fst ` set (or_empty (pnpm_overrides c'))
                   = fst ` set (or_empty (pnpm_overrides (old_pnpm pkg))) \<union> fst ` set resolved
               \<and> pnpm_rest c' = pnpm_rest (old_pnpm pkg))
            \<and> overrides pkg' = overrides pkg)
       \<and> dependencies pkg' = dependencies pkg
       \<and> devDependencies pkg' = devDependencies pkg
       \<and> rest pkg' = rest pkg"
proof (cases pm)
  case Npm
  with w have "pkg' = pkg\<lparr>overrides := Some (set_all (or_empty (overrides pkg))
                                               (set_all [] resolved))\<rparr>"
    by (simp add: written_npm)
  with Npm k show ?thesis
    by (simp add: or_empty_def map_of_merged keys_merged)
next
  case Pnpm
  with w have "pkg' = pkg\<lparr>pnpm := Some ((old_pnpm pkg)\<lparr>pnpm_overrides :=
        Some (set_all (or_empty (pnpm_overrides (old_pnpm pkg))) (set_all [] resolved))\<rparr>)\<rparr>"
    by (simp add: written_pnpm)
  with Pnpm k show ?thesis
    by (simp add: map_of_merged keys_merged or_empty_def)
qed


lemma scenario_pinned_npm:
  "sr_written (runStrategy no_spawn (Parsed pinned_package_json) ''overrides''
      [(''alpha'', ''2.0.0'')] DEFAULT_REGISTRY Npm) =
     Some (pinned_package_json\<lparr>overrides := Some [(''left-pad'', ''1.3.0''), (''alpha'', ''2.0.0'')]\<rparr>)"
  by code_simp

lemma scenario_pinned_pnpm:
  "sr_written (runStrategy no_spawn (Parsed pinned_package_json) ''overrides''
      [(''alpha'', ''2.0.0'')] DEFAULT_REGISTRY Pnpm) =
     Some (pinned_package_json\<lparr>pnpm := Some
        \<lparr>pnpm_overrides = Some [(''left-pad'', ''1.3.0''), (''alpha'', ''2.0.0'')],
         pnpm_rest = [(''shamefullyHoist'', JBool True)]\<rparr>\<rparr>)"
  by code_simp

lemma scenario_pnpm_overrides:
  "installAction (test_resolver [(''alpha'', alpha_two)]) no_spawn test_now
     (Parsed bare_package_json) [''alpha'']
     (test_options\<lparr>opt_dryRun := False, opt_strategy := ''overrides'',
                    opt_packageManager := Some Pnpm\<rparr>) () =
   \<lparr>out_exit = 0, out_resolved = [(''alpha'', ''2.0.0'')], out_failures = [],
    out_report = [nl ''Safe versions to install:'', ''  alpha@2.0.0''],
    out_written = Some (bare_package_json\<lparr>pnpm := Some
        \<lparr>pnpm_overrides = Some [(''alpha'', ''2.0.0'')], pnpm_rest = []\<rparr>\<rparr>),
    out_command = Some (''pnpm'', [''install'', ''--registry'', ''https://registry.npmjs.org'']),
    out_world = ()\<rparr>"
  by code_simp

theorem overrides_strategy_frame_witness:
  "sr_written (runStrategy no_spawn (Parsed pinned_package_json) ''overrides''
      [(''alpha'', ''2.0.0'')] DEFAULT_REGISTRY Npm) =
     Some (pinned_package_json\<lparr>overrides := Some [(''left-pad'', ''1.3.0''), (''alpha'', ''2.0.0'')]\<rparr>)
   \<and> ''left-pad'' \<notin> fst ` set [(''alpha'', ''2.0.0'')]
   \<and> map_of (or_empty (overrides (pinned_package_json\<lparr>overrides :=
          Some [(''left-pad'', ''1.3.0''), (''alpha'', ''2.0.0'')]\<rparr>))) ''left-pad''
       = map_of (or_empty (overrides pinned_package_json)) ''left-pad''
   \<and> map_of (or_empty (overrides pinned_package_json)) ''left-pad'' = Some ''1.3.0''
   \<and> sr_written (runStrategy no_spawn (Parsed pinned_package_json) ''overrides''
      [(''alpha'', ''2.0.0'')] DEFAULT_REGISTRY Pnpm) =
     Some (pinned_package_json\<lparr>pnpm := Some
        \<lparr>pnpm_overrides = Some [(''left-pad'', ''1.3.0''), (''alpha'', ''2.0.0'')],
         pnpm_rest = [(''shamefullyHoist'', JBool True)]\<rparr>\<rparr>)
   \<and> overrides (pinned_package_json\<lparr>pnpm := Some
        \<lparr>pnpm_overrides = Some [(''left-pad'', ''1.3.0''), (''alpha'', ''2.0.0'')],
         pnpm_rest = [(''shamefullyHoist'', JBool True)]\<rparr>\<rparr>) = overrides pinned_package_json"
proof -
  have k: "''left-pad'' \<notin> fst ` set [(''alpha'', ''2.0.0'')]" by simp
  note n = overrides_strategy_frame[OF scenario_pinned_npm k]
  note p = overrides_strategy_frame[OF scenario_pinned_pnpm k]
  from n have 1: "map_of (or_empty (overrides (pinned_package_json\<lparr>overrides :=
          Some [(''left-pad'', ''1.3.0''), (''alpha'', ''2.0.0'')]\<rparr>))) ''left-pad''
       = map_of (or_empty (overrides pinned_package_json)) ''left-pad''"
    by blast
  have 2: "map_of (or_empty (overrides pinned_package_json)) ''left-pad'' = Some ''1.3.0''"
    by (simp add: pinned_package_json_def or_empty_def)
  from p have 3: "overrides (pinned_package_json\<lparr>pnpm := Some
        \<lparr>pnpm_overrides = Some [(''left-pad'', ''1.3.0''), (''alpha'', ''2.0.0'')],
         pnpm_rest = [(''shamefullyHoist'', JBool True)]\<rparr>\<rparr>) = overrides pinned_package_json"
    by blast
  show ?thesis using scenario_pinned_npm k 1 2 scenario_pinned_pnpm 3 by (intro conjI)
qed


end
